theory Spec2Isabelle
  imports Main "HOL-Library.Word" "HOL-Library.Sublist"
begin

unbundle bit_operations_syntax

section \<open>The file system that lega.js works on\<close>

text \<open>
  \<open>lega.js\<close> is a command line tool: every command resolves its path arguments and
  then walks the file system with Node's synchronous \<open>fs\<close> calls. The model keeps
  the file system as a tree. A directory is the list of its entries in the order
  \<open>readdirSync\<close> enumerates them; a regular file is its bytes. Symbolic links,
  permissions and the limits of the operating system on the length of a name and of a
  path are not modelled. An absolute, normalised path is the list of its
  components below the root directory. The name of an entry is one component (it is
  never empty, \<open>.\<close> or \<open>..\<close> and holds no slash), so that
  \<open>path.join(dir, entry.name)\<close> is the path of \<open>dir\<close> with the name
  appended.
\<close>

type_synonym byte = "8 word"
type_synonym name = string
type_synonym path = "name list"

datatype node = File "byte list" | Dir "(name \<times> node) list"

text \<open>
  The error codes with which the calls used by the tool throw: those of the operating
  system, and the two of Node for a file too large to read into a buffer and for a
  buffer too long to decode into a string.
\<close>

datatype errno =
    ENOENT | ENOTDIR | EISDIR | EEXIST | ENOTEMPTY | EBUSY
  | ERR_FS_FILE_TOO_LARGE | ERR_STRING_TOO_LONG

text \<open>
  Path resolution as the operating system does it: a component looked up in a regular
  file is \<open>ENOTDIR\<close>, a component missing from a directory is \<open>ENOENT\<close>.
\<close>

fun stat :: "node \<Rightarrow> path \<Rightarrow> errno + node" where
  "stat t [] = Inr t"
| "stat t (n # p) =
     (case t of
        File bs \<Rightarrow> Inl ENOTDIR
      | Dir es \<Rightarrow> (case map_of es n of None \<Rightarrow> Inl ENOENT | Some c \<Rightarrow> stat c p))"

text \<open>\<open>fs.existsSync(p)\<close>: true when the path resolves, false on every error.\<close>

definition existsSync :: "node \<Rightarrow> path \<Rightarrow> bool" where
  "existsSync fs p = (case stat fs p of Inl e \<Rightarrow> False | Inr t \<Rightarrow> True)"

text \<open>
  A path string may end in a separator: \<open>path.resolve\<close> never leaves one,
  \<open>path.join\<close> keeps the one that its last argument ends in. The operating
  system resolves such a name as the path before the separator and refuses it with
  \<open>ENOTDIR\<close> when a regular file is there. A \<open>pathname\<close> is a path
  and whether a separator ends it; \<open>statName\<close> and \<open>existsSyncName\<close>
  are the resolution and \<open>fs.existsSync\<close> of such a name.
\<close>

type_synonym pathname = "path \<times> bool"

definition statName :: "node \<Rightarrow> pathname \<Rightarrow> errno + node" where
  "statName fs file =
     (case file of (p, separator) \<Rightarrow>
        (case stat fs p of
           Inl e \<Rightarrow> Inl e
         | Inr (Dir es) \<Rightarrow> Inr (Dir es)
         | Inr (File bs) \<Rightarrow> if separator then Inl ENOTDIR else Inr (File bs)))"

definition existsSyncName :: "node \<Rightarrow> pathname \<Rightarrow> bool" where
  "existsSyncName fs file = (case statName fs file of Inl e \<Rightarrow> False | Inr t \<Rightarrow> True)"

text \<open>
  \<open>fs.readFileSync(p)\<close>: the bytes of a regular file (a \<open>Buffer\<close>).
  A file of more than \<open>kIoMaxLength\<close> bytes (2 GiB) is refused.
  \<open>readNode\<close> is the read of the node that a path resolves to.
\<close>

definition kIoMaxLength :: nat where
  "kIoMaxLength = 2147483647"

definition readNode :: "node \<Rightarrow> errno + byte list" where
  "readNode t =
     (case t of
        Dir es \<Rightarrow> Inl EISDIR
      | File bs \<Rightarrow> if kIoMaxLength < length bs then Inl ERR_FS_FILE_TOO_LARGE else Inr bs)"

definition readFileSync :: "node \<Rightarrow> path \<Rightarrow> errno + byte list" where
  "readFileSync fs p = (case stat fs p of Inl e \<Rightarrow> Inl e | Inr t \<Rightarrow> readNode t)"

text \<open>
  \<open>fs.readdirSync(p, { withFileTypes: true })\<close>: the entries of a directory, each
  with its name and whether it is a directory (\<open>entry.isDirectory()\<close>).
\<close>

fun isDirectory :: "node \<Rightarrow> bool" where
  "isDirectory (Dir es) = True"
| "isDirectory (File bs) = False"

definition readdirSync :: "node \<Rightarrow> path \<Rightarrow> errno + (name \<times> bool) list" where
  "readdirSync fs p =
     (case stat fs p of
        Inl e \<Rightarrow> Inl e
      | Inr (File bs) \<Rightarrow> Inl ENOTDIR
      | Inr (Dir es) \<Rightarrow> Inr (map (\<lambda>(n, c). (n, isDirectory c)) es))"

section \<open>Buffer.toString\<close>

text \<open>
  \<open>compare\<close> turns both buffers into strings with \<open>toString()\<close>, which decodes
  UTF-8 and puts U+FFFD in the place of every ill-formed sequence. The decoder below is
  the UTF-8 decoder of the Encoding Standard that Node follows, with the number of
  continuation bytes still expected in place of the pair of counters "bytes needed" and
  "bytes seen". The result is the list of code points of the string; no surrogate is ever
  decoded, so two results are the same JavaScript string exactly when they are the same
  list. A buffer of more than \<open>kStringMaxLength\<close> bytes is not decoded:
  \<open>toString\<close> throws \<open>ERR_STRING_TOO_LONG\<close>.
\<close>

fun utf8Decode :: "nat \<Rightarrow> nat \<Rightarrow> byte \<Rightarrow> byte \<Rightarrow> byte list \<Rightarrow> nat list" where
  "utf8Decode cp needed lo hi [] = (if needed = 0 then [] else [0xFFFD])"
| "utf8Decode cp needed lo hi (b # bs) =
     (if needed = 0 then
        (if b \<le> 0x7F then unat b # utf8Decode 0 0 0x80 0xBF bs
         else if 0xC2 \<le> b \<and> b \<le> 0xDF then
           utf8Decode (unat (b AND 0x1F)) 1 0x80 0xBF bs
         else if 0xE0 \<le> b \<and> b \<le> 0xEF then
           utf8Decode (unat (b AND 0x0F)) 2
             (if b = 0xE0 then 0xA0 else 0x80) (if b = 0xED then 0x9F else 0xBF) bs
         else if 0xF0 \<le> b \<and> b \<le> 0xF4 then
           utf8Decode (unat (b AND 0x07)) 3
             (if b = 0xF0 then 0x90 else 0x80) (if b = 0xF4 then 0x8F else 0xBF) bs
         else 0xFFFD # utf8Decode 0 0 0x80 0xBF bs)
      else if b < lo \<or> hi < b then 0xFFFD # utf8Decode 0 0 0x80 0xBF (b # bs)
      else if needed = 1 then
        (cp * 64 + unat (b AND 0x3F)) # utf8Decode 0 0 0x80 0xBF bs
      else utf8Decode (cp * 64 + unat (b AND 0x3F)) (needed - 1) 0x80 0xBF bs)"

definition kStringMaxLength :: nat where
  "kStringMaxLength = 536870888"

definition toString :: "byte list \<Rightarrow> errno + nat list" where
  "toString buf =
     (if kStringMaxLength < length buf then Inl ERR_STRING_TOO_LONG
      else Inr (utf8Decode 0 0 0x80 0xBF buf))"

section \<open>compare\<close>

text \<open>
  What \<open>compare\<close> prints, one constructor for each \<open>console.log\<close> of
  \<open>compareFilesRecursively\<close>. The "differs" line carries the bare file name, the
  other lines the joined path.
\<close>

datatype report =
    DirectoryMissingInNew path
  | FileMissingInNew path
  | FileDiffers name
  | FileMissingInOld path

text \<open>
  \<open>compareFilesRecursively(oldPath, newPath)\<close> only reads. It is modelled on the
  two nodes that the paths resolve to: \<open>readdirSync\<close> of a path is the entry list
  of its node, and a joined path \<open>path.join(newPath, file.name)\<close> resolves to the
  entry of that name. The result is the lines printed so far and the error that
  ended the walk, if one was thrown: nothing in the command catches it. For a file
  found on both sides the order is that of the code: both reads, then the
  \<open>toString()\<close> of the old buffer, then that of the new one.

  \<open>oldLoop\<close> is \<open>oldFiles.forEach\<close>, \<open>newLoop\<close> is \<open>newFiles.forEach\<close>.
\<close>

fun newLoop :: "path \<Rightarrow> name list \<Rightarrow> (name \<times> node) list \<Rightarrow> report list" where
  "newLoop newPath oldFileNames [] = []"
| "newLoop newPath oldFileNames ((n, c) # files) =
     (if n \<notin> set oldFileNames then FileMissingInOld (newPath @ [n]) # newLoop newPath oldFileNames files
      else newLoop newPath oldFileNames files)"

fun compareFilesRecursively :: "path \<Rightarrow> node \<Rightarrow> path \<Rightarrow> node \<Rightarrow> report list \<times> errno option"
  and oldLoop :: "path \<Rightarrow> path \<Rightarrow> (name \<times> node) list \<Rightarrow> (name \<times> node) list \<Rightarrow> report list \<times> errno option"
where
  "compareFilesRecursively oldPath (File bs) newPath new = ([], Some ENOTDIR)"
| "compareFilesRecursively oldPath (Dir oldFiles) newPath (File bs) = ([], Some ENOTDIR)"
| "compareFilesRecursively oldPath (Dir oldFiles) newPath (Dir newFiles) =
     (case oldLoop oldPath newPath newFiles oldFiles of
        (out, Some e) \<Rightarrow> (out, Some e)
      | (out, None) \<Rightarrow> (out @ newLoop newPath (map fst oldFiles) newFiles, None))"
| "oldLoop oldPath newPath newFiles [] = ([], None)"
| "oldLoop oldPath newPath newFiles ((n, file) # files) =
     (case
        (case file of
           Dir es \<Rightarrow>
             (case map_of newFiles n of
                Some new \<Rightarrow> compareFilesRecursively (oldPath @ [n]) (Dir es) (newPath @ [n]) new
              | None \<Rightarrow> ([DirectoryMissingInNew (oldPath @ [n])], None))
         | File bs \<Rightarrow>
             (case map_of newFiles n of
                None \<Rightarrow> ([FileMissingInNew (oldPath @ [n])], None)
              | Some new \<Rightarrow>
                  (case readNode (File bs) of
                     Inl e \<Rightarrow> ([], Some e)
                   | Inr oldFileContent \<Rightarrow>
                  (case readNode new of
                     Inl e \<Rightarrow> ([], Some e)
                   | Inr newFileContent \<Rightarrow>
                  (case toString oldFileContent of
                     Inl e \<Rightarrow> ([], Some e)
                   | Inr oldText \<Rightarrow>
                  (case toString newFileContent of
                     Inl e \<Rightarrow> ([], Some e)
                   | Inr newText \<Rightarrow>
                       (if oldText \<noteq> newText then ([FileDiffers n], None)
                        else ([], None))))))))
      of
        (out, Some e) \<Rightarrow> (out, Some e)
      | (out, None) \<Rightarrow>
          (case oldLoop oldPath newPath newFiles files of (out', r) \<Rightarrow> (out @ out', r)))"

text \<open>
  The call \<open>compareFilesRecursively(oldDir, newDir)\<close> on a file system: the
  first \<open>readdirSync\<close> of a missing directory throws.
\<close>

definition compareTrees :: "node \<Rightarrow> path \<Rightarrow> path \<Rightarrow> report list \<times> errno option" where
  "compareTrees fs oldDir newDir =
     (case stat fs oldDir of
        Inl e \<Rightarrow> ([], Some e)
      | Inr old \<Rightarrow>
          (case old of
             File bs \<Rightarrow> ([], Some ENOTDIR)
           | Dir es \<Rightarrow>
               (case stat fs newDir of
                  Inl e \<Rightarrow> ([], Some e)
                | Inr new \<Rightarrow> compareFilesRecursively oldDir old newDir new)))"

section \<open>Paths\<close>

text \<open>
  The path arguments of a command are strings. \<open>segments\<close> cuts one at its
  slashes; \<open>normalizeString\<close> is the normalisation that Node's \<open>path.resolve\<close>,
  \<open>path.join\<close> and \<open>path.normalize\<close> share: an empty segment and \<open>.\<close>
  are dropped, \<open>..\<close> removes the segment before it, and where there is none it
  is kept only if the path may rise above its start (\<open>allowAboveRoot\<close>, for a relative
  path). The result is built as a stack, last segment first.
\<close>

fun segments :: "string \<Rightarrow> name list" where
  "segments [] = [[]]"
| "segments (c # cs) =
     (if c = CHR ''/'' then [] # segments cs
      else (case segments cs of [] \<Rightarrow> [[c]] | s # ss \<Rightarrow> (c # s) # ss))"

definition isAbsolute :: "string \<Rightarrow> bool" where
  "isAbsolute s = (case s of [] \<Rightarrow> False | c # cs \<Rightarrow> c = CHR ''/'')"

definition normalizeStep :: "bool \<Rightarrow> name \<Rightarrow> name list \<Rightarrow> name list" where
  "normalizeStep allowAboveRoot seg res =
     (if seg = [] \<or> seg = ''.'' then res
      else if seg = ''..'' then
        (case res of
           [] \<Rightarrow> if allowAboveRoot then [''..''] else []
         | r # rs \<Rightarrow> if r \<noteq> ''..'' then rs else if allowAboveRoot then ''..'' # res else res)
      else seg # res)"

definition normalizeString :: "bool \<Rightarrow> name list \<Rightarrow> name list" where
  "normalizeString allowAboveRoot segs = rev (fold (normalizeStep allowAboveRoot) segs [])"

text \<open>
  \<open>path.resolve(process.cwd(), s)\<close>, with the working directory given as an
  absolute normalised path, and \<open>path.join(p, s)\<close> for an absolute \<open>p\<close>:
  \<open>join\<close> appends even a string that starts with a slash.
\<close>

definition resolve :: "path \<Rightarrow> string \<Rightarrow> path" where
  "resolve cwd s = normalizeString False (if isAbsolute s then segments s else cwd @ segments s)"

definition joinSegments :: "path \<Rightarrow> name list \<Rightarrow> path" where
  "joinSegments p segs = normalizeString False (p @ segs)"

definition join :: "path \<Rightarrow> string \<Rightarrow> path" where
  "join p s = joinSegments p (segments s)"

text \<open>
  \<open>path.join\<close> ends its result with a separator when the joined string ends
  with one and the normalised path is not the root directory. \<open>joinName p s\<close>
  is \<open>path.join(p, s)\<close> with that separator kept, for a string \<open>s\<close>
  that the user gave.
\<close>

definition trailingSeparator :: "string \<Rightarrow> bool" where
  "trailingSeparator s = (s \<noteq> [] \<and> last s = CHR ''/'')"

definition joinName :: "path \<Rightarrow> string \<Rightarrow> pathname" where
  "joinName p s = (join p s, join p s \<noteq> [] \<and> trailingSeparator s)"

text \<open>
  \<open>path.relative(from, to)\<close> on two resolved paths: one \<open>..\<close> for every
  component of \<open>from\<close> below the common prefix, then the rest of \<open>to\<close>. The
  result is kept as its segments.
\<close>

fun relative :: "path \<Rightarrow> path \<Rightarrow> name list" where
  "relative (a # from) (b # to) =
     (if a = b then relative from to else replicate (Suc (length from)) ''..'' @ b # to)"
| "relative from to = replicate (length from) ''..'' @ to"

definition dirname :: "path \<Rightarrow> path" where
  "dirname p = butlast p"

text \<open>
  A path string that no \<open>path\<close> function has normalised is resolved by the
  operating system, one component after the other: every component, an empty one,
  \<open>.\<close> and \<open>..\<close> too, is looked up in what must be a directory by
  then, so that \<open>nope/../a.txt\<close> and \<open>a.txt/\<close> do not name the file
  \<open>a.txt\<close>. \<open>walk fs cur segs\<close> is the path reached from
  \<open>cur\<close>; \<open>lookup fs cwd s\<close> is the path that the string
  \<open>s\<close> names for a process in the working directory \<open>cwd\<close>. The
  empty string names nothing.
\<close>

fun walk :: "node \<Rightarrow> path \<Rightarrow> name list \<Rightarrow> errno + path" where
  "walk fs cur [] = Inr cur"
| "walk fs cur (s # segs) =
     (case stat fs cur of
        Inl e \<Rightarrow> Inl e
      | Inr (File bs) \<Rightarrow> Inl ENOTDIR
      | Inr (Dir es) \<Rightarrow>
          if s = [] \<or> s = ''.'' then walk fs cur segs
          else if s = ''..'' then walk fs (butlast cur) segs
          else walk fs (cur @ [s]) segs)"

definition lookup :: "node \<Rightarrow> path \<Rightarrow> string \<Rightarrow> errno + path" where
  "lookup fs cwd s =
     (if s = [] then Inl ENOENT
      else walk fs (if isAbsolute s then [] else cwd) (segments s))"

text \<open>The \<open>compare\<close> command.\<close>

definition compare :: "path \<Rightarrow> node \<Rightarrow> string \<Rightarrow> report list \<times> errno option" where
  "compare cwd fs updateDir =
     (let fullPath = resolve cwd updateDir;
          oldDir = join fullPath ''old'';
          newDir = join fullPath ''new'' in
      compareTrees fs oldDir newDir)"

section \<open>list\<close>

text \<open>
  \<open>listFilesRecursively\<close> of the \<open>list\<close> command, on the entries of the
  directory read: depth first, every entry that is not a directory is pushed.
\<close>

fun listFilesRecursively :: "path \<Rightarrow> (name \<times> node) list \<Rightarrow> path list" where
  "listFilesRecursively dir [] = []"
| "listFilesRecursively dir ((n, File bs) # entries) =
     (dir @ [n]) # listFilesRecursively dir entries"
| "listFilesRecursively dir ((n, Dir sub) # entries) =
     listFilesRecursively (dir @ [n]) sub @ listFilesRecursively dir entries"

datatype listOutput =
    VersionDirectoryDoesNotExist string
  | NoFilesFound string
  | FilesIn string "path list"
  | ListThrows errno

text \<open>
  The \<open>list\<close> command: the only test on \<open>version\<close> is that
  \<open>path.join(fullPath, version)\<close> exists. The paths of the entries are joined
  to it again, which drops a separator at its end.
\<close>

definition list_command :: "path \<Rightarrow> node \<Rightarrow> string \<Rightarrow> string \<Rightarrow> listOutput" where
  "list_command cwd fs updateDir version =
     (let fullPath = resolve cwd updateDir;
          versionDir = joinName fullPath version in
      if \<not> existsSyncName fs versionDir then VersionDirectoryDoesNotExist version
      else
        (case statName fs versionDir of
           Inl e \<Rightarrow> ListThrows e
         | Inr (File bs) \<Rightarrow> ListThrows ENOTDIR
         | Inr (Dir entries) \<Rightarrow>
             (let files = listFilesRecursively (fst versionDir) entries in
              if length files = 0 then NoFilesFound version else FilesIn version files)))"

section \<open>push\<close>

text \<open>
  A string typed at the prompt is the list of its UTF-16 code units. \<open>trim\<close>
  removes the white space and line terminators of ECMAScript at both ends.
  \<open>toLowerCase\<close> is given on the letters A to Z only; the case mapping of the other
  characters is not modelled, and none of them is mapped to \<open>y\<close>, the only string
  the result is compared with.
\<close>

definition isWhiteSpace :: "nat \<Rightarrow> bool" where
  "isWhiteSpace c =
     (c \<in> {0x09, 0x0A, 0x0B, 0x0C, 0x0D, 0x20, 0xA0, 0x1680, 0x2028, 0x2029, 0x202F,
            0x205F, 0x3000, 0xFEFF}
      \<or> (0x2000 \<le> c \<and> c \<le> 0x200A))"

definition trim :: "nat list \<Rightarrow> nat list" where
  "trim s = rev (dropWhile isWhiteSpace (rev (dropWhile isWhiteSpace s)))"

definition toLowerCase :: "nat list \<Rightarrow> nat list" where
  "toLowerCase s = map (\<lambda>c. if 0x41 \<le> c \<and> c \<le> 0x5A then c + 0x20 else c) s"

text \<open>\<open>askConfirmation\<close> resolves to \<open>answer.trim().toLowerCase() === "y"\<close>.\<close>

definition askConfirmation :: "nat list \<Rightarrow> bool" where
  "askConfirmation answer = (toLowerCase (trim answer) = [0x79])"

text \<open>
  A planned upload: the local file and the remote path
  \<open>path.join(process.env.FTP_REMOTE_DIR, path.relative(dir, filePath))\<close>, kept as
  whether it is absolute and its normalised segments.
\<close>

record transferItem =
  localFilePath :: path
  remoteFilePath :: "bool \<times> name list"

definition remotePath :: "string \<Rightarrow> name list \<Rightarrow> bool \<times> name list" where
  "remotePath remoteDir rel =
     (isAbsolute remoteDir, normalizeString (\<not> isAbsolute remoteDir) (segments remoteDir @ rel))"

text \<open>\<open>traverse\<close> of \<open>listFiles(dir)\<close>, on the entries of the directory read.\<close>

fun traverse :: "string \<Rightarrow> path \<Rightarrow> path \<Rightarrow> (name \<times> node) list \<Rightarrow> transferItem list" where
  "traverse remoteDir dir currentDir [] = []"
| "traverse remoteDir dir currentDir ((n, Dir sub) # files) =
     traverse remoteDir dir (currentDir @ [n]) sub @ traverse remoteDir dir currentDir files"
| "traverse remoteDir dir currentDir ((n, File bs) # files) =
     \<lparr>localFilePath = currentDir @ [n],
      remoteFilePath = remotePath remoteDir (relative dir (currentDir @ [n]))\<rparr>
     # traverse remoteDir dir currentDir files"

definition listFiles :: "string \<Rightarrow> node \<Rightarrow> path \<Rightarrow> errno + transferItem list" where
  "listFiles remoteDir fs dir =
     (case stat fs dir of
        Inl e \<Rightarrow> Inl e
      | Inr (File bs) \<Rightarrow> Inl ENOTDIR
      | Inr (Dir files) \<Rightarrow> Inr (traverse remoteDir dir dir files))"

text \<open>
  The FTP client is a capability of the command: \<open>put\<close> takes the state of the
  transport and an item and gives the state after the transfer and the error the callback
  got, if any. \<open>uploadFile\<close> rejects on the error. The loop
  \<open>for (const file of filesToUpload) await uploadFile(...)\<close> hands each transfer
  the state its predecessor left; a rejection leaves the loop. Its result: the items
  for which \<open>put\<close> was called, the items logged as uploaded, the state of the
  transport, and the error.
\<close>

type_synonym ('c, 'e) put = "'c \<Rightarrow> transferItem \<Rightarrow> 'c \<times> 'e option"

fun uploadFiles ::
  "('c, 'e) put \<Rightarrow> 'c \<Rightarrow> transferItem list
     \<Rightarrow> transferItem list \<times> transferItem list \<times> 'c \<times> 'e option" where
  "uploadFiles put client [] = ([], [], client, None)"
| "uploadFiles put client (file # files) =
     (case put client file of
        (client', Some err) \<Rightarrow> ([file], [], client', Some err)
      | (client', None) \<Rightarrow>
          (case uploadFiles put client' files of
             (called, uploaded, client'', r) \<Rightarrow> (file # called, file # uploaded, client'', r)))"

text \<open>
  How a \<open>push\<close> ends, named after what it prints: the two early returns, the
  client's \<open>error\<close> event, and inside the \<open>ready\<close> handler "Operation
  cancelled.", "Upload completed successfully." and the \<open>catch\<close> with
  "Error during upload", which a failed listing and a rejected upload both reach.
\<close>

datatype 'e pushEnd =
    PleaseSpecifyVersion
  | CredentialsNotSet
  | ClientError 'e
  | OperationCancelled
  | UploadCompleted
  | ErrorDuringUpload "errno + 'e"

record ('c, 'e) pushResult =
  ending :: "'e pushEnd"
  plan :: "transferItem list"
  putCalls :: "transferItem list"
  uploaded :: "transferItem list"
  transport :: "'c option"

text \<open>
  The environment: \<open>FTP_HOST\<close>, \<open>FTP_USER\<close>, \<open>FTP_PASSWORD\<close> and
  \<open>FTP_REMOTE_DIR\<close>; an unset variable is \<open>None\<close>, and \<open>!x\<close> holds
  for an unset and for an empty one. \<open>remoteBaseDirectory\<close> is read only after
  the test that it is set.
\<close>

record env =
  FTP_HOST :: "string option"
  FTP_USER :: "string option"
  FTP_PASSWORD :: "string option"
  FTP_REMOTE_DIR :: "string option"

definition unset :: "string option \<Rightarrow> bool" where
  "unset x = (case x of None \<Rightarrow> True | Some s \<Rightarrow> s = [])"

definition remoteBaseDirectory :: "env \<Rightarrow> string" where
  "remoteBaseDirectory ev = (case FTP_REMOTE_DIR ev of None \<Rightarrow> [] | Some s \<Rightarrow> s)"

text \<open>
  The \<open>push\<close> command. \<open>connect\<close> is the outcome of \<open>client.connect\<close>:
  the \<open>error\<close> event or the \<open>ready\<close> event with the state of the transport;
  \<open>answer\<close> is the line typed at the prompt, which is asked only after the plan
  has been listed.
\<close>

definition push ::
  "env \<Rightarrow> path \<Rightarrow> node \<Rightarrow> 'e + 'c \<Rightarrow> ('c, 'e) put \<Rightarrow> nat list \<Rightarrow> string \<Rightarrow> string
     \<Rightarrow> ('c, 'e) pushResult" where
  "push ev cwd fs connect put answer updateDir version =
     (if version \<noteq> ''new'' \<and> version \<noteq> ''old'' then
        \<lparr>ending = PleaseSpecifyVersion, plan = [], putCalls = [], uploaded = [], transport = None\<rparr>
      else if unset (FTP_HOST ev) \<or> unset (FTP_USER ev) \<or> unset (FTP_PASSWORD ev)
              \<or> unset (FTP_REMOTE_DIR ev) then
        \<lparr>ending = CredentialsNotSet, plan = [], putCalls = [], uploaded = [], transport = None\<rparr>
      else
        (case connect of
           Inl err \<Rightarrow>
             \<lparr>ending = ClientError err, plan = [], putCalls = [], uploaded = [], transport = None\<rparr>
         | Inr client \<Rightarrow>
             (let fullPath = resolve cwd updateDir;
                  srcDir = join fullPath version in
              case listFiles (remoteBaseDirectory ev) fs srcDir of
                Inl e \<Rightarrow>
                  \<lparr>ending = ErrorDuringUpload (Inl e), plan = [], putCalls = [], uploaded = [],
                   transport = Some client\<rparr>
              | Inr filesToUpload \<Rightarrow>
                  (if askConfirmation answer then
                     (case uploadFiles put client filesToUpload of
                        (called, done, client', None) \<Rightarrow>
                          \<lparr>ending = UploadCompleted, plan = filesToUpload, putCalls = called,
                           uploaded = done, transport = Some client'\<rparr>
                      | (called, done, client', Some err) \<Rightarrow>
                          \<lparr>ending = ErrorDuringUpload (Inr err), plan = filesToUpload,
                           putCalls = called, uploaded = done, transport = Some client'\<rparr>)
                   else
                     \<lparr>ending = OperationCancelled, plan = filesToUpload, putCalls = [],
                      uploaded = [], transport = Some client\<rparr>))))"

text \<open>
  Vocabulary for the statements about \<open>push\<close>. \<open>transportAfter\<close> is the
  state of the transport after the given items were put one after the other,
  \<open>putResult\<close> the error of the \<open>i\<close>-th put of a plan when all puts
  before it were made, and \<open>promptReached\<close> says that a session gets as far as
  the prompt, with \<open>client\<close> connected and \<open>files\<close> the plan listed.
\<close>

definition transportAfter :: "('c, 'e) put \<Rightarrow> 'c \<Rightarrow> transferItem list \<Rightarrow> 'c" where
  "transportAfter put client files = foldl (\<lambda>c file. fst (put c file)) client files"

definition putResult :: "('c, 'e) put \<Rightarrow> 'c \<Rightarrow> transferItem list \<Rightarrow> nat \<Rightarrow> 'e option" where
  "putResult put client files i = snd (put (transportAfter put client (take i files)) (files ! i))"

definition promptReached ::
  "env \<Rightarrow> path \<Rightarrow> node \<Rightarrow> 'e + 'c \<Rightarrow> string \<Rightarrow> string \<Rightarrow> 'c \<Rightarrow> transferItem list \<Rightarrow> bool" where
  "promptReached ev cwd fs connect updateDir version client files =
     ((version = ''new'' \<or> version = ''old'')
      \<and> \<not> unset (FTP_HOST ev) \<and> \<not> unset (FTP_USER ev) \<and> \<not> unset (FTP_PASSWORD ev)
      \<and> \<not> unset (FTP_REMOTE_DIR ev)
      \<and> connect = Inr client
      \<and> listFiles (remoteBaseDirectory ev) fs (join (resolve cwd updateDir) version) = Inr files)"

section \<open>Writing to the file system\<close>

text \<open>
  Surgery on the tree. \<open>setEntry\<close> replaces the entry of a name where it stands
  and adds a new name at the end of the directory; \<open>place p new t\<close> is \<open>t\<close>
  with \<open>new\<close> at the path \<open>p\<close>, whose parent must be a directory of
  \<open>t\<close>; \<open>erase p t\<close> is \<open>t\<close> without the entry at \<open>p\<close>.
\<close>

fun setEntry :: "name \<Rightarrow> node \<Rightarrow> (name \<times> node) list \<Rightarrow> (name \<times> node) list" where
  "setEntry n c [] = [(n, c)]"
| "setEntry n c ((m, d) # es) = (if m = n then (n, c) # es else (m, d) # setEntry n c es)"

fun place :: "path \<Rightarrow> node \<Rightarrow> node \<Rightarrow> node" where
  "place [] new t = new"
| "place (n # p) new t =
     (case t of
        File bs \<Rightarrow> t
      | Dir es \<Rightarrow>
          (case map_of es n of
             None \<Rightarrow> if p = [] then Dir (setEntry n new es) else t
           | Some c \<Rightarrow> Dir (setEntry n (place p new c) es)))"

fun erase :: "path \<Rightarrow> node \<Rightarrow> node" where
  "erase [] t = t"
| "erase (n # p) t =
     (case t of
        File bs \<Rightarrow> t
      | Dir es \<Rightarrow>
          (if p = [] then Dir (filter (\<lambda>(m, d). m \<noteq> n) es)
           else (case map_of es n of
                   None \<Rightarrow> t
                 | Some c \<Rightarrow> Dir (setEntry n (erase p c) es))))"

text \<open>
  \<open>fs.mkdirSync(p, { recursive: true })\<close>: every missing directory on the way is
  made, a directory that is there is left as it is, a regular file on the way is
  \<open>ENOTDIR\<close> and one at the end \<open>EEXIST\<close>.
\<close>

fun mkdirp :: "path \<Rightarrow> node \<Rightarrow> errno + node" where
  "mkdirp [] t = (case t of File bs \<Rightarrow> Inl EEXIST | Dir es \<Rightarrow> Inr t)"
| "mkdirp (n # p) t =
     (case t of
        File bs \<Rightarrow> Inl ENOTDIR
      | Dir es \<Rightarrow>
          (case mkdirp p (case map_of es n of None \<Rightarrow> Dir [] | Some c \<Rightarrow> c) of
             Inl e \<Rightarrow> Inl e
           | Inr c' \<Rightarrow> Inr (Dir (setEntry n c' es))))"

definition mkdirSync :: "node \<Rightarrow> path \<Rightarrow> errno + node" where
  "mkdirSync fs p = mkdirp p fs"

text \<open>
  \<open>fs.copyFileSync(src, dest)\<close>: the source must be a regular file; the
  destination is created in an existing directory or, if it is a regular file,
  overwritten.
\<close>

definition copyFileSync :: "node \<Rightarrow> path \<Rightarrow> path \<Rightarrow> errno + node" where
  "copyFileSync fs src dest =
     (case stat fs src of
        Inl e \<Rightarrow> Inl e
      | Inr (Dir es) \<Rightarrow> Inl EISDIR
      | Inr (File bs) \<Rightarrow>
          (case stat fs dest of
             Inr (Dir es) \<Rightarrow> Inl EISDIR
           | Inr (File old) \<Rightarrow> Inr (place dest (File bs) fs)
           | Inl e \<Rightarrow>
               (case stat fs (butlast dest) of
                  Inl e' \<Rightarrow> Inl e'
                | Inr (File old) \<Rightarrow> Inl ENOTDIR
                | Inr (Dir es) \<Rightarrow> Inr (place dest (File bs) fs))))"

text \<open>
  \<open>fs.copyFileSync(s, dest)\<close> with the source as the string \<open>s\<close> of
  the command line, which the operating system resolves.
\<close>

definition copyFileSyncFrom :: "node \<Rightarrow> path \<Rightarrow> string \<Rightarrow> path \<Rightarrow> errno + node" where
  "copyFileSyncFrom fs cwd s dest =
     (case lookup fs cwd s of Inl e \<Rightarrow> Inl e | Inr src \<Rightarrow> copyFileSync fs src dest)"

text \<open>
  \<open>fs.unlinkSync(p)\<close> removes a regular file (a directory is \<open>EISDIR\<close> on
  Linux); \<open>fs.rmdirSync(p)\<close> removes an empty directory; \<open>fs.lstatSync(p)\<close>
  is \<open>stat\<close>, there being no links.
\<close>

definition unlinkSync :: "node \<Rightarrow> path \<Rightarrow> errno + node" where
  "unlinkSync fs p =
     (case stat fs p of
        Inl e \<Rightarrow> Inl e
      | Inr (Dir es) \<Rightarrow> Inl EISDIR
      | Inr (File bs) \<Rightarrow> Inr (erase p fs))"

text \<open>
  \<open>fs.unlinkSync\<close> of a name that may end in a separator: a regular file named
  with a separator is \<open>ENOTDIR\<close>.
\<close>

definition unlinkSyncName :: "node \<Rightarrow> pathname \<Rightarrow> errno + node" where
  "unlinkSyncName fs file =
     (case statName fs file of Inl e \<Rightarrow> Inl e | Inr t \<Rightarrow> unlinkSync fs (fst file))"

definition rmdirSync :: "node \<Rightarrow> path \<Rightarrow> errno + node" where
  "rmdirSync fs p =
     (case stat fs p of
        Inl e \<Rightarrow> Inl e
      | Inr (File bs) \<Rightarrow> Inl ENOTDIR
      | Inr (Dir es) \<Rightarrow>
          (if es \<noteq> [] then Inl ENOTEMPTY else if p = [] then Inl EBUSY else Inr (erase p fs)))"

definition lstatSync :: "node \<Rightarrow> path \<Rightarrow> errno + node" where
  "lstatSync fs p = stat fs p"

section \<open>add and remove\<close>

text \<open>
  The two destinations that \<open>add\<close> computes:
  \<open>path.join(oldDir, path.relative(process.cwd(), filePath))\<close> and the same under
  \<open>newDir\<close>.
\<close>

definition relPath :: "path \<Rightarrow> string \<Rightarrow> name list" where
  "relPath cwd filePath = relative cwd (resolve cwd filePath)"

definition destOldPath :: "path \<Rightarrow> string \<Rightarrow> string \<Rightarrow> path" where
  "destOldPath cwd updateDir filePath =
     joinSegments (join (resolve cwd updateDir) ''old'') (relPath cwd filePath)"

definition destNewPath :: "path \<Rightarrow> string \<Rightarrow> string \<Rightarrow> path" where
  "destNewPath cwd updateDir filePath =
     joinSegments (join (resolve cwd updateDir) ''new'') (relPath cwd filePath)"

text \<open>
  The \<open>add\<close> command, up to the call that opens the new copy in the editor. A
  command that changes the file system gives the file system it leaves and the error
  it threw, if any: what was done before the error stays done. The destinations are
  computed from the resolved \<open>filePath\<close>; \<open>copyFileSync\<close> is handed
  \<open>filePath\<close> as it was typed.
\<close>

definition add :: "path \<Rightarrow> node \<Rightarrow> string \<Rightarrow> string \<Rightarrow> node \<times> errno option" where
  "add cwd fs updateDir filePath =
     (case mkdirSync fs (dirname (destOldPath cwd updateDir filePath)) of
        Inl e \<Rightarrow> (fs, Some e)
      | Inr fs1 \<Rightarrow>
     (case mkdirSync fs1 (dirname (destNewPath cwd updateDir filePath)) of
        Inl e \<Rightarrow> (fs1, Some e)
      | Inr fs2 \<Rightarrow>
     (case copyFileSyncFrom fs2 cwd filePath (destOldPath cwd updateDir filePath) of
        Inl e \<Rightarrow> (fs2, Some e)
      | Inr fs3 \<Rightarrow>
     (case copyFileSyncFrom fs3 cwd filePath (destNewPath cwd updateDir filePath) of
        Inl e \<Rightarrow> (fs3, Some e)
      | Inr fs4 \<Rightarrow> (fs4, None)))))"

text \<open>
  The \<open>remove\<close> command: \<open>removeFileIfExists\<close> on
  \<open>path.join(fullPath, "old", filePath)\<close>, then on the same under \<open>new\<close>.
  Each call prints one line, with the name it was given. The two names end in a
  separator when \<open>filePath\<close> does: \<open>remove u1 a.txt/\<close> looks for
  \<open>u1/old/a.txt/\<close>, which no regular file answers to.
\<close>

datatype removeLine = Removed pathname | DoesNotExist pathname

definition removeFileIfExists :: "node \<Rightarrow> pathname \<Rightarrow> node \<times> removeLine list \<times> errno option" where
  "removeFileIfExists fs file =
     (if existsSyncName fs file then
        (case unlinkSyncName fs file of
           Inl e \<Rightarrow> (fs, [], Some e)
         | Inr fs' \<Rightarrow> (fs', [Removed file], None))
      else (fs, [DoesNotExist file], None))"

definition oldTarget :: "path \<Rightarrow> string \<Rightarrow> string \<Rightarrow> pathname" where
  "oldTarget cwd updateDir filePath =
     (let p = joinSegments (resolve cwd updateDir) (''old'' # segments filePath)
      in (p, p \<noteq> [] \<and> trailingSeparator filePath))"

definition newTarget :: "path \<Rightarrow> string \<Rightarrow> string \<Rightarrow> pathname" where
  "newTarget cwd updateDir filePath =
     (let p = joinSegments (resolve cwd updateDir) (''new'' # segments filePath)
      in (p, p \<noteq> [] \<and> trailingSeparator filePath))"

definition remove :: "path \<Rightarrow> node \<Rightarrow> string \<Rightarrow> string \<Rightarrow> node \<times> removeLine list \<times> errno option" where
  "remove cwd fs updateDir filePath =
     (case removeFileIfExists fs (oldTarget cwd updateDir filePath) of
        (fs1, out1, Some e) \<Rightarrow> (fs1, out1, Some e)
      | (fs1, out1, None) \<Rightarrow>
          (case removeFileIfExists fs1 (newTarget cwd updateDir filePath) of
             (fs2, out2, r) \<Rightarrow> (fs2, out1 @ out2, r)))"

section \<open>backup and restore\<close>

text \<open>
  \<open>copyDirectory(src, dest)\<close> and \<open>deleteDirectory(dir)\<close> read the file system
  they are changing, and a copy into the directory being copied never ends. Both
  carry fuel, the depth of recursion still allowed: \<open>None\<close> is a walk that ran out
  of it. \<open>copyEntries\<close> and \<open>deleteEntries\<close> are the \<open>forEach\<close> loops.
\<close>

fun copyDirectory :: "nat \<Rightarrow> path \<Rightarrow> path \<Rightarrow> node \<Rightarrow> (node \<times> errno option) option"
  and copyEntries :: "nat \<Rightarrow> path \<Rightarrow> path \<Rightarrow> (name \<times> bool) list \<Rightarrow> node \<Rightarrow> (node \<times> errno option) option"
where
  "copyDirectory 0 src dest fs = None"
| "copyDirectory (Suc k) src dest fs =
     (case mkdirSync fs dest of
        Inl e \<Rightarrow> Some (fs, Some e)
      | Inr fs1 \<Rightarrow>
          (case readdirSync fs1 src of
             Inl e \<Rightarrow> Some (fs1, Some e)
           | Inr entries \<Rightarrow> copyEntries k src dest entries fs1))"
| "copyEntries k src dest [] fs = Some (fs, None)"
| "copyEntries k src dest ((n, isDir) # entries) fs =
     (case
        (if isDir then copyDirectory k (src @ [n]) (dest @ [n]) fs
         else (case copyFileSync fs (src @ [n]) (dest @ [n]) of
                 Inl e \<Rightarrow> Some (fs, Some e)
               | Inr fs' \<Rightarrow> Some (fs', None)))
      of
        None \<Rightarrow> None
      | Some (fs', Some e) \<Rightarrow> Some (fs', Some e)
      | Some (fs', None) \<Rightarrow> copyEntries k src dest entries fs')"

fun deleteDirectory :: "nat \<Rightarrow> path \<Rightarrow> node \<Rightarrow> (node \<times> errno option) option"
  and deleteEntries :: "nat \<Rightarrow> path \<Rightarrow> name list \<Rightarrow> node \<Rightarrow> (node \<times> errno option) option"
where
  "deleteDirectory 0 dir fs = None"
| "deleteDirectory (Suc k) dir fs =
     (if existsSync fs dir then
        (case readdirSync fs dir of
           Inl e \<Rightarrow> Some (fs, Some e)
         | Inr entries \<Rightarrow>
             (case deleteEntries k dir (map fst entries) fs of
                None \<Rightarrow> None
              | Some (fs', Some e) \<Rightarrow> Some (fs', Some e)
              | Some (fs', None) \<Rightarrow>
                  (case rmdirSync fs' dir of
                     Inl e \<Rightarrow> Some (fs', Some e)
                   | Inr fs'' \<Rightarrow> Some (fs'', None))))
      else Some (fs, None))"
| "deleteEntries k dir [] fs = Some (fs, None)"
| "deleteEntries k dir (file # files) fs =
     (case lstatSync fs (dir @ [file]) of
        Inl e \<Rightarrow> Some (fs, Some e)
      | Inr st \<Rightarrow>
          (case
             (if isDirectory st then deleteDirectory k (dir @ [file]) fs
              else (case unlinkSync fs (dir @ [file]) of
                      Inl e \<Rightarrow> Some (fs, Some e)
                    | Inr fs' \<Rightarrow> Some (fs', None)))
           of
             None \<Rightarrow> None
           | Some (fs', Some e) \<Rightarrow> Some (fs', Some e)
           | Some (fs', None) \<Rightarrow> deleteEntries k dir files fs'))"

text \<open>
  The name of a backup, \<open>`${fullPath}_backup_${Date.now()}`\<close>: the text is appended
  to the path as a string, so to its last component (to the root, it names a directory
  in the root). \<open>decimal\<close> writes the number of milliseconds.
\<close>

definition digit :: "nat \<Rightarrow> char" where
  "digit d =
     (if d = 0 then CHR ''0'' else if d = 1 then CHR ''1'' else if d = 2 then CHR ''2''
      else if d = 3 then CHR ''3'' else if d = 4 then CHR ''4'' else if d = 5 then CHR ''5''
      else if d = 6 then CHR ''6'' else if d = 7 then CHR ''7'' else if d = 8 then CHR ''8''
      else CHR ''9'')"

fun decimal :: "nat \<Rightarrow> string" where
  "decimal n = (if n < 10 then [digit n] else decimal (n div 10) @ [digit (n mod 10)])"

definition backupName :: "path \<Rightarrow> nat \<Rightarrow> path" where
  "backupName fullPath now =
     (if fullPath = [] then [''_backup_'' @ decimal now]
      else butlast fullPath @ [last fullPath @ ''_backup_'' @ decimal now])"

text \<open>The \<open>backup\<close> command, at the time \<open>now\<close>.\<close>

definition backup :: "nat \<Rightarrow> path \<Rightarrow> node \<Rightarrow> nat \<Rightarrow> string \<Rightarrow> (node \<times> errno option) option" where
  "backup fuel cwd fs now updateDir =
     (let fullPath = resolve cwd updateDir;
          backupDir = backupName fullPath now in
      copyDirectory fuel fullPath backupDir fs)"

text \<open>
  The \<open>restore\<close> command. \<open>BackupDoesNotExist\<close> is its early return, with the
  file system untouched.
\<close>

datatype restoreEnd = BackupDoesNotExist | Restored | RestoreThrows errno

definition restore :: "nat \<Rightarrow> path \<Rightarrow> node \<Rightarrow> string \<Rightarrow> string \<Rightarrow> (node \<times> restoreEnd) option" where
  "restore fuel cwd fs updateDir backupDir =
     (let fullPath = resolve cwd updateDir;
          backupPath = resolve cwd backupDir in
      if \<not> existsSync fs backupPath then Some (fs, BackupDoesNotExist)
      else
        (case deleteDirectory fuel fullPath fs of
           None \<Rightarrow> None
         | Some (fs1, Some e) \<Rightarrow> Some (fs1, RestoreThrows e)
         | Some (fs1, None) \<Rightarrow>
             (case copyDirectory fuel backupPath fullPath fs1 of
                None \<Rightarrow> None
              | Some (fs2, Some e) \<Rightarrow> Some (fs2, RestoreThrows e)
              | Some (fs2, None) \<Rightarrow> Some (fs2, Restored))))"

section \<open>Vocabulary of the statements\<close>

text \<open>
  Two measures of a tree for the statements: no directory lists a name twice, and the
  depth of nesting, which bounds the fuel a walk needs.
\<close>

fun distinctNames :: "node \<Rightarrow> bool"
  and distinctEntries :: "(name \<times> node) list \<Rightarrow> bool"
where
  "distinctNames (File bs) = True"
| "distinctNames (Dir es) = (distinct (map fst es) \<and> distinctEntries es)"
| "distinctEntries [] = True"
| "distinctEntries ((n, c) # es) = (distinctNames c \<and> distinctEntries es)"

fun depth :: "node \<Rightarrow> nat"
  and depthEntries :: "(name \<times> node) list \<Rightarrow> nat"
where
  "depth (File bs) = 0"
| "depth (Dir es) = Suc (depthEntries es)"
| "depthEntries [] = 0"
| "depthEntries ((n, c) # es) = max (depth c) (depthEntries es)"

text \<open>
  \<open>decodable t\<close>: no file of the tree is longer than \<open>kStringMaxLength\<close>
  bytes, so that \<open>readFileSync\<close> and \<open>toString\<close> accept every one of
  them.
\<close>

fun decodable :: "node \<Rightarrow> bool"
  and decodableEntries :: "(name \<times> node) list \<Rightarrow> bool"
where
  "decodable (File bs) = (length bs \<le> kStringMaxLength)"
| "decodable (Dir es) = decodableEntries es"
| "decodableEntries [] = True"
| "decodableEntries ((n, c) # es) = (decodable c \<and> decodableEntries es)"

text \<open>
  \<open>notDirectory fs p\<close>: what \<open>p\<close> names in \<open>fs\<close>, if anything, is a
  regular file.
\<close>

definition notDirectory :: "node \<Rightarrow> path \<Rightarrow> bool" where
  "notDirectory fs p = (case stat fs p of Inl e \<Rightarrow> True | Inr t \<Rightarrow> \<not> isDirectory t)"

text \<open>
  \<open>directoryTree fs p t fuel\<close>: in \<open>fs\<close> the path \<open>p\<close> is the directory
  \<open>t\<close>, which lists no name twice and is no deeper than \<open>fuel\<close>;
  \<open>directoryOrAbsent\<close>: \<open>p\<close> is such a directory or does not exist.
\<close>

definition directoryTree :: "node \<Rightarrow> path \<Rightarrow> node \<Rightarrow> nat \<Rightarrow> bool" where
  "directoryTree fs p t fuel =
     (stat fs p = Inr t \<and> isDirectory t \<and> distinctNames t \<and> depth t \<le> fuel)"

definition directoryOrAbsent :: "node \<Rightarrow> path \<Rightarrow> nat \<Rightarrow> bool" where
  "directoryOrAbsent fs p fuel =
     (case stat fs p of
        Inl e \<Rightarrow> e = ENOENT
      | Inr t \<Rightarrow> isDirectory t \<and> distinctNames t \<and> depth t \<le> fuel)"

text \<open>
  \<open>properPath p\<close>: \<open>p\<close> is normalised, none of its components is empty,
  \<open>.\<close> or \<open>..\<close>. The working directory is such a path.
\<close>

definition properName :: "name \<Rightarrow> bool" where
  "properName s = (s \<noteq> [] \<and> s \<noteq> ''.'' \<and> s \<noteq> ''..'')"

definition properPath :: "path \<Rightarrow> bool" where
  "properPath p = list_all properName p"

section \<open>File systems and a session used as examples\<close>

text \<open>
  The working directory is \<open>/home\<close>, the update directory \<open>u1\<close> has one file
  in \<open>old\<close> and three in \<open>new\<close>, and the remote directory is \<open>/var/www\<close>.
  \<open>storingPut\<close> is a transport that accepts every file and keeps what it received;
  \<open>refusingPut n\<close> rejects the file named \<open>n\<close>.
\<close>

definition exampleEnv :: env where
  "exampleEnv = \<lparr>FTP_HOST = Some ''ftp.example.org'', FTP_USER = Some ''u'', FTP_PASSWORD = Some ''p'', FTP_REMOTE_DIR = Some ''/var/www''\<rparr>"

definition exampleFs :: node where
  "exampleFs = Dir [(''home'', Dir [(''u1'', Dir
      [(''old'', Dir [(''a.txt'', File [0x78])]),
       (''new'', Dir [(''a.txt'', File [0x79]), (''b.txt'', File [0x7A]), (''c.txt'', File [])])])])]"

definition examplePlan :: "transferItem list" where
  "examplePlan =
     [\<lparr>localFilePath = [''home'', ''u1'', ''new'', ''a.txt''], remoteFilePath = (True, [''var'', ''www'', ''a.txt''])\<rparr>,
      \<lparr>localFilePath = [''home'', ''u1'', ''new'', ''b.txt''], remoteFilePath = (True, [''var'', ''www'', ''b.txt''])\<rparr>,
      \<lparr>localFilePath = [''home'', ''u1'', ''new'', ''c.txt''], remoteFilePath = (True, [''var'', ''www'', ''c.txt''])\<rparr>]"

definition storingPut :: "(transferItem list, string) put" where
  "storingPut received file = (received @ [file], None)"

definition refusingPut :: "name \<Rightarrow> (transferItem list, string) put" where
  "refusingPut n received file =
     (if last (localFilePath file) = n then (received, Some ''553 refused'') else (received @ [file], None))"

text \<open>A file system with a saved copy \<open>/home/saved\<close> beside \<open>/home/u1\<close>.\<close>

definition savedFs :: node where
  "savedFs = Dir [(''home'', Dir
      [(''u1'', Dir [(''old'', Dir [(''a.txt'', File [0x78])]), (''new'', Dir [])]),
       (''saved'', Dir [(''old'', Dir []), (''new'', Dir [(''n.txt'', File [0x79])])])])]"

text \<open>
  A file system with a source file \<open>/home/src/m.js\<close> under the working directory
  \<open>/home\<close>, an empty update directory \<open>/home/u1\<close>, and a file
  \<open>/etc/conf\<close> outside the working directory.
\<close>

definition addFs :: node where
  "addFs = Dir
     [(''home'', Dir [(''src'', Dir [(''m.js'', File [0x78])]),
                     (''u1'', Dir [(''old'', Dir []), (''new'', Dir [])])]),
      (''etc'', Dir [(''conf'', File [0x63])])]"

section \<open>Facts about the tree\<close>

lemma map_of_setEntry: "map_of (setEntry n c es) m = (if m = n then Some c else map_of es m)"
  by (induction es) auto

lemma setEntry_same: "map_of es n = Some c \<Longrightarrow> setEntry n c es = es"
  by (induction es) (auto split: if_splits)

lemma setEntry_setEntry: "setEntry n a (setEntry n b es) = setEntry n a es"
  by (induction es) auto

lemma setEntry_new: "map_of es n = None \<Longrightarrow> setEntry n c es = es @ [(n, c)]"
  by (induction es) (auto split: if_splits)

lemma map_of_filter_name:
  "map_of (filter (\<lambda>(m, d). m \<noteq> n) es) m = (if m = n then None else map_of es m)"
  by (induction es) auto

lemma filter_setEntry:
  "filter (\<lambda>(m, d). m \<noteq> n) (setEntry n c es) = filter (\<lambda>(m, d). m \<noteq> n) es"
  by (induction es) auto

lemma stat_append: "stat t (p @ q) = (case stat t p of Inl e \<Rightarrow> Inl e | Inr c \<Rightarrow> stat c q)"
  by (induction p arbitrary: t) (auto split: node.splits option.splits)

lemma stat_place_below:
  "stat t q = Inr (Dir es) \<Longrightarrow> stat (place (q @ [n]) new t) (q @ n # r) = stat new r"
  by (induction q arbitrary: t) (auto simp: map_of_setEntry split: node.splits option.splits)

lemma stat_place_at:
  "stat t p = Inr x \<Longrightarrow> stat (place p new t) (p @ r) = stat new r"
  by (induction p arbitrary: t) (auto simp: map_of_setEntry split: node.splits option.splits)

lemma stat_place_parallel:
  "p \<parallel> q \<Longrightarrow> stat (place p new t) q = stat t q"
  by (induction p arbitrary: t q; case_tac q)
     (auto simp: parallel_def map_of_setEntry split: node.splits option.splits)

lemma place_child:
  "stat t q = Inr (Dir es) \<Longrightarrow> place (q @ [n]) c t = place q (Dir (setEntry n c es)) t"
  by (induction q arbitrary: t) (auto simp: setEntry_same split: node.splits option.splits)

lemma place_place: "place p a (place p b t) = place p a t"
  by (induction p arbitrary: t)
     (auto simp: map_of_setEntry setEntry_setEntry split: node.splits option.splits)

lemma erase_child:
  "stat t q = Inr (Dir es) \<Longrightarrow>
   erase (q @ [n]) t = place q (Dir (filter (\<lambda>(m, d). m \<noteq> n) es)) t"
  by (induction q arbitrary: t) (auto split: node.splits option.splits)

lemma erase_place: "p \<noteq> [] \<Longrightarrow> erase p (place p x t) = erase p t"
  by (induction p arbitrary: t)
     (auto simp: map_of_setEntry setEntry_setEntry filter_setEntry split: node.splits option.splits)

lemma stat_erase_at:
  "p \<noteq> [] \<Longrightarrow> stat t p = Inr x \<Longrightarrow> stat (erase p t) p = Inl ENOENT"
  by (induction p arbitrary: t)
     (auto simp: map_of_setEntry map_of_filter_name split: node.splits option.splits)

lemma stat_erase_parallel:
  "p \<parallel> q \<Longrightarrow> stat (erase p t) q = stat t q"
  by (induction p arbitrary: t q; case_tac q)
     (auto simp: parallel_def map_of_setEntry map_of_filter_name split: node.splits option.splits)

lemma mkdirp_existing: "stat t p = Inr (Dir es) \<Longrightarrow> mkdirp p t = Inr t"
  by (induction p arbitrary: t) (auto simp: setEntry_same split: node.splits option.splits)

lemma mkdirp_empty: "\<exists>t'. mkdirp p (Dir []) = Inr t' \<and> stat t' p = Inr (Dir [])"
  by (induction p) auto

lemma mkdirp_fresh:
  "stat t p = Inl ENOENT \<Longrightarrow> \<exists>t'. mkdirp p t = Inr t' \<and> stat t' p = Inr (Dir [])"
proof (induction p arbitrary: t)
  case Nil
  then show ?case by simp
next
  case (Cons n p)
  then obtain es where t: "t = Dir es" by (cases t) auto
  show ?case
  proof (cases "map_of es n")
    case None
    with t mkdirp_empty[of p] show ?thesis by (auto simp: map_of_setEntry)
  next
    case (Some c)
    with t Cons.prems have "stat c p = Inl ENOENT" by simp
    from Cons.IH[OF this] t Some show ?thesis by (auto simp: map_of_setEntry)
  qed
qed

lemma stat_empty_dir: "q \<noteq> [] \<Longrightarrow> stat (Dir []) q = Inl ENOENT"
  by (cases q) auto

lemma mkdirp_parallel:
  "mkdirp p t = Inr t' \<Longrightarrow> p \<parallel> q \<Longrightarrow> stat t' q = stat t q"
proof (induction p arbitrary: t t' q)
  case Nil
  then show ?case by (simp add: parallel_def)
next
  case (Cons n p)
  from Cons.prems obtain m q' where q: "q = m # q'" by (cases q) (auto simp: parallel_def)
  from Cons.prems obtain es where t: "t = Dir es" by (cases t) auto
  define c where "c = (case map_of es n of None \<Rightarrow> Dir [] | Some c \<Rightarrow> c)"
  from Cons.prems t obtain c' where c': "mkdirp p c = Inr c'" and t': "t' = Dir (setEntry n c' es)"
    by (auto simp: c_def split: sum.splits)
  show ?case
  proof (cases "m = n")
    case False
    with q t t' show ?thesis by (simp add: map_of_setEntry)
  next
    case True
    with Cons.prems q have par: "p \<parallel> q'" by (simp add: parallel_def)
    then have "q' \<noteq> []" by (auto simp: parallel_def)
    from Cons.IH[OF c' par] have "stat c' q' = stat c q'" .
    with True q t t' \<open>q' \<noteq> []\<close> show ?thesis
      by (auto simp: map_of_setEntry c_def stat_empty_dir split: option.splits)
  qed
qed

lemma mkdirp_child:
  "stat t q = Inr (Dir es) \<Longrightarrow> map_of es n = None \<Longrightarrow>
   mkdirp (q @ [n]) t = Inr (place (q @ [n]) (Dir []) t)"
  by (induction q arbitrary: t) (auto split: node.splits option.splits)

text \<open>
  The reads of a walk, on the file system: below a directory, \<open>readdirSync\<close>
  gives its entries, and \<open>statSync\<close> and \<open>readFileSync\<close> of a joined
  path give the entry of that name. This is what lets a walk that only reads be
  followed on the nodes.
\<close>

lemma readdirSync_entries:
  "stat fs p = Inr (Dir es) \<Longrightarrow> readdirSync fs p = Inr (map (\<lambda>(n, c). (n, isDirectory c)) es)"
  by (simp add: readdirSync_def)

lemma stat_child:
  "stat t q = Inr (Dir es) \<Longrightarrow>
   stat t (q @ [n]) = (case map_of es n of None \<Rightarrow> Inl ENOENT | Some c \<Rightarrow> Inr c)"
  by (simp add: stat_append split: option.splits)

lemma readFileSync_child:
  "stat fs p = Inr (Dir es) \<Longrightarrow>
   readFileSync fs (p @ [n]) =
     (case map_of es n of None \<Rightarrow> Inl ENOENT | Some c \<Rightarrow> readNode c)"
  by (simp add: readFileSync_def stat_child split: option.splits)

section \<open>What compare reports\<close>

lemma newLoop_all_known:
  "set (map fst files) \<subseteq> set oldFileNames \<Longrightarrow> newLoop newPath oldFileNames files = []"
  by (induction files) auto

lemma readNode_decodable: "length bs \<le> kStringMaxLength \<Longrightarrow> readNode (File bs) = Inr bs"
  by (simp add: readNode_def kIoMaxLength_def kStringMaxLength_def)

lemma toString_decodable: "toString bs = Inr text \<Longrightarrow> length bs \<le> kStringMaxLength"
  by (simp add: toString_def split: if_splits)

lemma compare_file_pair:
  "toString a = Inr oldText \<Longrightarrow> toString b = Inr newText \<Longrightarrow>
   compareFilesRecursively oldPath (Dir [(n, File a)]) newPath (Dir [(n, File b)]) =
     (if oldText \<noteq> newText then [FileDiffers n] else [], None)"
  by (simp add: readNode_decodable toString_decodable)

lemma toString_invalid_bytes:
  "toString [0xFF] = Inr [0xFFFD]" "toString [0xFE] = Inr [0xFFFD]"
  by (simp_all add: toString_def kStringMaxLength_def)

lemma compare_equal_decodings:
  "map_of newFiles n = Some (File b) \<Longrightarrow> toString a = Inr text \<Longrightarrow> toString b = Inr text \<Longrightarrow>
   oldLoop oldPath newPath newFiles [(n, File a)] = ([], None)"
  by (simp add: readNode_decodable toString_decodable)

lemma compare_long_file_throws:
  "compareFilesRecursively oldPath (Dir [(n, File (replicate 536870889 0x41))])
     newPath (Dir [(n, File (replicate 536870889 0x41))]) = ([], Some ERR_STRING_TOO_LONG)"
  by (simp add: readNode_def toString_def kIoMaxLength_def kStringMaxLength_def)

text \<open>
  Claim C1: for every pair of files with the same relative path in both trees,
  \<open>compare\<close> reports \<open>differs\<close> if and only if the contents are not
  byte-identical. The code compares \<open>oldFileContent.toString()\<close> with
  \<open>newFileContent.toString()\<close>, and decoding is not injective: in the update
  directory \<open>u1\<close> below (the working directory is the root),
  \<open>old/a.bin\<close> is the single byte FF and \<open>new/a.bin\<close> the single
  byte FE; both decode to U+FFFD, and \<open>compare\<close> prints nothing although the
  two files differ. What decides is the decoded text
  (\<open>compare_file_pair\<close>, \<open>compare_equal_decodings\<close>).
\<close>

theorem compare_misses_differing_bytes:
  "compare []
     (Dir [(''u1'', Dir [(''old'', Dir [(''a.bin'', File [0xFF])]),
                         (''new'', Dir [(''a.bin'', File [0xFE])])])])
     ''u1'' = ([], None)
   \<and> [0xFF :: byte] \<noteq> [0xFE]"
  by (simp add: compare_def compareTrees_def toString_def readNode_def kIoMaxLength_def
      kStringMaxLength_def resolve_def join_def joinSegments_def normalizeString_def
      normalizeStep_def isAbsolute_def)

lemma oldLoop_mixed_type_throws:
  "(n, a) \<in> set files \<Longrightarrow> map_of newFiles n = Some b \<Longrightarrow> isDirectory a \<noteq> isDirectory b \<Longrightarrow>
   snd (oldLoop oldPath newPath newFiles files) \<noteq> None"
proof (induction files)
  case Nil
  then show ?case by simp
next
  case (Cons entry files)
  obtain m c where entry: "entry = (m, c)" by (cases entry)
  show ?case
  proof (cases "(m, c) = (n, a)")
    case True
    with entry Cons.prems show ?thesis by (cases a; cases b) (auto simp: readNode_def)
  next
    case False
    with entry Cons.prems have "snd (oldLoop oldPath newPath newFiles files) \<noteq> None"
      by (intro Cons.IH) auto
    then show ?thesis
      unfolding entry by (auto split: prod.splits option.splits node.splits)
  qed
qed

lemma compare_mixed_type_always_throws:
  assumes "(n, a) \<in> set oldFiles" and "map_of newFiles n = Some b"
    and "isDirectory a \<noteq> isDirectory b"
  shows "snd (compareFilesRecursively oldPath (Dir oldFiles) newPath (Dir newFiles)) \<noteq> None"
proof -
  have "snd (oldLoop oldPath newPath newFiles oldFiles) \<noteq> None"
    using assms by (rule oldLoop_mixed_type_throws)
  then show ?thesis by (auto split: prod.splits option.splits)
qed

text \<open>
  Claim C3: a name that is a file on one side and a directory on the other is
  classified as \<open>differs\<close>, without raising an error. The code prints nothing for
  such a name and throws: \<open>readFileSync\<close> of the directory \<open>new/a\<close> is
  \<open>EISDIR\<close> when the file is on the old side, and \<open>readdirSync\<close> of the
  file \<open>new/a\<close> is \<open>ENOTDIR\<close> when the directory is on the old side.
  The walk of two directories that hold such a name always ends in an error
  (\<open>compare_mixed_type_always_throws\<close>).
\<close>

theorem compare_mixed_type_throws:
  "compare []
     (Dir [(''u1'', Dir [(''old'', Dir [(''a'', File [0x78])]),
                         (''new'', Dir [(''a'', Dir [])])])])
     ''u1'' = ([], Some EISDIR)
   \<and>
   compare []
     (Dir [(''u1'', Dir [(''old'', Dir [(''a'', Dir [])]),
                         (''new'', Dir [(''a'', File [0x78])])])])
     ''u1'' = ([], Some ENOTDIR)"
  by (simp add: compare_def compareTrees_def readNode_def kIoMaxLength_def resolve_def join_def
      joinSegments_def normalizeString_def normalizeStep_def isAbsolute_def)


section \<open>What list accepts\<close>

lemma list_missing_version_directory:
  "\<not> existsSyncName fs (joinName (resolve cwd updateDir) version) \<Longrightarrow>
   list_command cwd fs updateDir version = VersionDirectoryDoesNotExist version"
  by (simp add: list_command_def)

lemma list_file_with_separator:
  "stat fs (join (resolve cwd updateDir) version) = Inr (File bs) \<Longrightarrow>
   join (resolve cwd updateDir) version \<noteq> [] \<Longrightarrow>
   list_command cwd fs updateDir version =
     (if trailingSeparator version then VersionDirectoryDoesNotExist version
      else ListThrows ENOTDIR)"
  by (auto simp: list_command_def joinName_def existsSyncName_def statName_def)

lemma push_rejects_other_versions:
  "version \<noteq> ''new'' \<Longrightarrow> version \<noteq> ''old'' \<Longrightarrow>
   ending (push ev cwd fs connect put answer updateDir version) = PleaseSpecifyVersion"
  by (simp add: push_def)

lemma list_version_with_separator:
  "list_command [''home''] exampleFs ''u1'' ''old/a.txt/''
     = VersionDirectoryDoesNotExist ''old/a.txt/''
   \<and> list_command [''home''] exampleFs ''u1'' ''old/a.txt'' = ListThrows ENOTDIR
   \<and> list_command [''home''] exampleFs ''u1'' ''old/''
     = FilesIn ''old/'' [[''home'', ''u1'', ''old'', ''a.txt'']]"
  by (simp add: list_command_def resolve_def join_def joinSegments_def normalizeString_def
      normalizeStep_def isAbsolute_def joinName_def existsSyncName_def statName_def
      trailingSeparator_def exampleFs_def)

lemma list_any_existing_directory:
  "stat fs (join (resolve cwd updateDir) version) = Inr (Dir entries) \<Longrightarrow>
   list_command cwd fs updateDir version =
     (if listFilesRecursively (join (resolve cwd updateDir) version) entries = []
      then NoFilesFound version
      else FilesIn version (listFilesRecursively (join (resolve cwd updateDir) version) entries))"
  by (simp add: list_command_def joinName_def existsSyncName_def statName_def)

text \<open>
  Claim C2: \<open>list\<close> fails with NotFound when the directory of the version is
  absent, and accepts only \<open>old\<close> and \<open>new\<close> as the version. The first half
  is \<open>list_missing_version_directory\<close>. The second half fails: unlike \<open>push\<close>
  (\<open>push_rejects_other_versions\<close>), \<open>list\<close> never compares \<open>version\<close>
  with \<open>old\<close> and \<open>new\<close>, and lists any directory that exists under the update
  directory (\<open>list_any_existing_directory\<close>). Here the working directory is \<open>/home\<close> and \<open>u1\<close> holds a third
  directory \<open>other\<close>.
\<close>

theorem list_accepts_any_existing_directory:
  "list_command [''home'']
     (Dir [(''home'', Dir [(''u1'', Dir [(''old'', Dir []), (''new'', Dir []),
                                         (''other'', Dir [(''f.txt'', File [0x78])])])])])
     ''u1'' ''other''
   = FilesIn ''other'' [[''home'', ''u1'', ''other'', ''f.txt'']]"
  by (simp add: list_command_def resolve_def join_def joinSegments_def normalizeString_def
      normalizeStep_def isAbsolute_def joinName_def existsSyncName_def statName_def
      trailingSeparator_def)

section \<open>The confirmation gate and the upload loop of push\<close>

lemma askConfirmation_letters:
  "askConfirmation answer = (trim answer = [0x79] \<or> trim answer = [0x59])"
  unfolding askConfirmation_def toLowerCase_def
  by (cases "trim answer"; cases "tl (trim answer)") auto

lemma askConfirmation_examples:
  "askConfirmation [0x79, 0x65, 0x73] = False"
  "askConfirmation [] = False"
  "askConfirmation [0x6E] = False"
  "askConfirmation [0x20, 0x59, 0x0D, 0x0A] = True"
  by (simp_all add: askConfirmation_def trim_def toLowerCase_def isWhiteSpace_def)

lemma uploadFiles_all_succeed:
  "(\<forall>i < length files. putResult put client files i = None) \<Longrightarrow>
   uploadFiles put client files = (files, files, transportAfter put client files, None)"
proof (induction files arbitrary: client)
  case Nil
  then show ?case by (simp add: transportAfter_def)
next
  case (Cons f files)
  from Cons.prems have h0: "snd (put client f) = None"
    by (auto simp: putResult_def transportAfter_def dest: spec[of _ 0])
  have "\<forall>i < length files. putResult put (fst (put client f)) files i = None"
  proof (intro allI impI)
    fix i assume "i < length files"
    then have "putResult put client (f # files) (Suc i) = None" using Cons.prems by auto
    then show "putResult put (fst (put client f)) files i = None"
      by (simp add: putResult_def transportAfter_def)
  qed
  from Cons.IH[OF this] h0 show ?case
    by (cases "put client f") (simp add: transportAfter_def)
qed

lemma uploadFiles_first_failure:
  "k < length files \<Longrightarrow> (\<forall>i < k. putResult put client files i = None) \<Longrightarrow>
   putResult put client files k = Some err \<Longrightarrow>
   uploadFiles put client files =
     (take (Suc k) files, take k files, transportAfter put client (take (Suc k) files), Some err)"
proof (induction files arbitrary: client k)
  case Nil
  then show ?case by simp
next
  case (Cons f files)
  show ?case
  proof (cases k)
    case 0
    with Cons.prems show ?thesis
      by (cases "put client f") (simp add: putResult_def transportAfter_def)
  next
    case (Suc j)
    from Cons.prems Suc have h0: "snd (put client f) = None"
      by (auto simp: putResult_def transportAfter_def dest: spec[of _ 0])
    have a: "j < length files" using Cons.prems Suc by simp
    have b: "\<forall>i < j. putResult put (fst (put client f)) files i = None"
    proof (intro allI impI)
      fix i assume "i < j"
      then have "putResult put client (f # files) (Suc i) = None" using Cons.prems Suc by auto
      then show "putResult put (fst (put client f)) files i = None"
        by (simp add: putResult_def transportAfter_def)
    qed
    have c: "putResult put (fst (put client f)) files j = Some err"
      using Cons.prems Suc by (simp add: putResult_def transportAfter_def)
    from Cons.IH[OF a b c] h0 Suc show ?thesis
      by (cases "put client f") (simp add: transportAfter_def)
  qed
qed

lemma push_at_prompt:
  "promptReached ev cwd fs connect updateDir version client files \<Longrightarrow>
   push ev cwd fs connect put answer updateDir version =
     (if askConfirmation answer then
        (case uploadFiles put client files of
           (called, done, client', None) \<Rightarrow>
             \<lparr>ending = UploadCompleted, plan = files, putCalls = called,
              uploaded = done, transport = Some client'\<rparr>
         | (called, done, client', Some err) \<Rightarrow>
             \<lparr>ending = ErrorDuringUpload (Inr err), plan = files,
              putCalls = called, uploaded = done, transport = Some client'\<rparr>)
      else
        \<lparr>ending = OperationCancelled, plan = files, putCalls = [],
         uploaded = [], transport = Some client\<rparr>)"
  by (auto simp: promptReached_def push_def)

lemma example_promptReached:
  "promptReached exampleEnv [''home''] exampleFs (Inr []) ''u1'' ''new'' [] examplePlan"
  by (simp add: promptReached_def exampleEnv_def exampleFs_def examplePlan_def unset_def
      remoteBaseDirectory_def
      listFiles_def resolve_def join_def joinSegments_def normalizeString_def normalizeStep_def
      isAbsolute_def remotePath_def)

text \<open>
  Claim C4: in every push session, whatever the plan, an answer to the confirmation
  prompt that is not a yes ends the session with "Operation cancelled." and no upload is
  issued: \<open>put\<close> is never called and the transport is left as it was connected.
\<close>

theorem push_cancelled_without_uploads:
  assumes "promptReached ev cwd fs connect updateDir version client files"
    and "\<not> askConfirmation answer"
  shows "ending (push ev cwd fs connect put answer updateDir version) = OperationCancelled
       \<and> putCalls (push ev cwd fs connect put answer updateDir version) = []
       \<and> uploaded (push ev cwd fs connect put answer updateDir version) = []
       \<and> transport (push ev cwd fs connect put answer updateDir version) = Some client"
  using assms by (simp add: push_at_prompt)

theorem push_cancelled_without_uploads_witness:
  "ending (push exampleEnv [''home''] exampleFs (Inr []) storingPut [0x6E] ''u1'' ''new'') = OperationCancelled
   \<and> putCalls (push exampleEnv [''home''] exampleFs (Inr []) storingPut [0x6E] ''u1'' ''new'') = []
   \<and> uploaded (push exampleEnv [''home''] exampleFs (Inr []) storingPut [0x6E] ''u1'' ''new'') = []
   \<and> transport (push exampleEnv [''home''] exampleFs (Inr []) storingPut [0x6E] ''u1'' ''new'') = Some []"
proof -
  have no: "\<not> askConfirmation [0x6E]"
    by (simp add: askConfirmation_def trim_def toLowerCase_def isWhiteSpace_def)
  show ?thesis
    using push_cancelled_without_uploads [OF example_promptReached no, of storingPut] by simp
qed

text \<open>
  Claim C5: a confirmed push issues its uploads one after the other in the order of the
  plan, each put on the state of the transport that the put before it left. When every
  put succeeds all items are put. When the put of item \<open>k\<close> is the first to fail,
  the items up to \<open>k\<close> are the only ones put, the items after it are never
  attempted, the session ends in the error, and the transport is in the state those puts
  left: nothing undoes the \<open>k\<close> items already uploaded.
\<close>

theorem push_sequential_fail_fast:
  assumes "promptReached ev cwd fs connect updateDir version client files"
    and "askConfirmation answer"
  shows "((\<forall>i < length files. putResult put client files i = None) \<longrightarrow>
            push ev cwd fs connect put answer updateDir version =
              \<lparr>ending = UploadCompleted, plan = files, putCalls = files, uploaded = files,
               transport = Some (transportAfter put client files)\<rparr>)
       \<and> (\<forall>k err. k < length files \<and> (\<forall>i < k. putResult put client files i = None)
                   \<and> putResult put client files k = Some err \<longrightarrow>
            push ev cwd fs connect put answer updateDir version =
              \<lparr>ending = ErrorDuringUpload (Inr err), plan = files,
               putCalls = take (Suc k) files, uploaded = take k files,
               transport = Some (transportAfter put client (take (Suc k) files))\<rparr>)"
proof (intro conjI allI impI)
  assume "\<forall>i < length files. putResult put client files i = None"
  from uploadFiles_all_succeed[OF this] assms
  show "push ev cwd fs connect put answer updateDir version =
              \<lparr>ending = UploadCompleted, plan = files, putCalls = files, uploaded = files,
               transport = Some (transportAfter put client files)\<rparr>"
    by (simp add: push_at_prompt)
next
  fix k err
  assume h: "k < length files \<and> (\<forall>i < k. putResult put client files i = None)
                   \<and> putResult put client files k = Some err"
  then have "uploadFiles put client files =
     (take (Suc k) files, take k files, transportAfter put client (take (Suc k) files), Some err)"
    by (intro uploadFiles_first_failure) auto
  with assms show "push ev cwd fs connect put answer updateDir version =
              \<lparr>ending = ErrorDuringUpload (Inr err), plan = files,
               putCalls = take (Suc k) files, uploaded = take k files,
               transport = Some (transportAfter put client (take (Suc k) files))\<rparr>"
    by (simp add: push_at_prompt)
qed

theorem push_sequential_fail_fast_witness:
  "push exampleEnv [''home''] exampleFs (Inr []) storingPut [0x79] ''u1'' ''new'' =
     \<lparr>ending = UploadCompleted, plan = examplePlan, putCalls = examplePlan,
      uploaded = examplePlan, transport = Some examplePlan\<rparr>
   \<and> push exampleEnv [''home''] exampleFs (Inr []) (refusingPut ''b.txt'') [0x79] ''u1'' ''new'' =
     \<lparr>ending = ErrorDuringUpload (Inr ''553 refused''), plan = examplePlan,
      putCalls = take 2 examplePlan, uploaded = take 1 examplePlan,
      transport = Some (take 1 examplePlan)\<rparr>"
proof -
  have yes: "askConfirmation [0x79]"
    by (simp add: askConfirmation_def trim_def toLowerCase_def isWhiteSpace_def)
  have ok: "\<forall>i < length examplePlan. putResult storingPut [] examplePlan i = None"
    by (simp add: putResult_def storingPut_def)
  have after: "transportAfter storingPut [] examplePlan = examplePlan"
    by (simp add: transportAfter_def storingPut_def examplePlan_def)
  have bad: "1 < length examplePlan \<and> (\<forall>i < 1. putResult (refusingPut ''b.txt'') [] examplePlan i = None)
     \<and> putResult (refusingPut ''b.txt'') [] examplePlan 1 = Some ''553 refused''"
    by (simp add: putResult_def refusingPut_def examplePlan_def transportAfter_def)
  have after': "transportAfter (refusingPut ''b.txt'') [] (take (Suc 1) examplePlan) = take 1 examplePlan"
    by (simp add: transportAfter_def refusingPut_def examplePlan_def)
  have one: "push exampleEnv [''home''] exampleFs (Inr []) storingPut [0x79] ''u1'' ''new'' =
     \<lparr>ending = UploadCompleted, plan = examplePlan, putCalls = examplePlan,
      uploaded = examplePlan, transport = Some examplePlan\<rparr>"
    using push_sequential_fail_fast [where put = storingPut, OF example_promptReached yes,
        THEN conjunct1, rule_format, OF ok [rule_format]] after
    by simp
  have two: "push exampleEnv [''home''] exampleFs (Inr []) (refusingPut ''b.txt'') [0x79] ''u1'' ''new'' =
     \<lparr>ending = ErrorDuringUpload (Inr ''553 refused''), plan = examplePlan,
      putCalls = take 2 examplePlan, uploaded = take 1 examplePlan,
      transport = Some (take 1 examplePlan)\<rparr>"
    using push_sequential_fail_fast [where put = "refusingPut ''b.txt''",
        OF example_promptReached yes, THEN conjunct2, rule_format, OF bad] after'
    by (simp add: numeral_2_eq_2)
  from one two show ?thesis by simp
qed

text \<open>
  Claim C9: at the prompt, the push is confirmed if and only if the answer, trimmed and
  lowercased, is the one character \<open>y\<close> (code unit 0x79), that is, if the trimmed
  answer is \<open>y\<close> or \<open>Y\<close>. Confirmed, the uploads of the plan run; on every
  other answer the push is cancelled and nothing is put.
\<close>

theorem push_confirmed_only_by_y:
  assumes "promptReached ev cwd fs connect updateDir version client files"
  shows "(if toLowerCase (trim answer) = [0x79]
          then ending (push ev cwd fs connect put answer updateDir version) \<noteq> OperationCancelled
             \<and> putCalls (push ev cwd fs connect put answer updateDir version) = fst (uploadFiles put client files)
          else ending (push ev cwd fs connect put answer updateDir version) = OperationCancelled
             \<and> putCalls (push ev cwd fs connect put answer updateDir version) = [])
       \<and> (toLowerCase (trim answer) = [0x79]) = (trim answer = [0x79] \<or> trim answer = [0x59])"
proof -
  have eq: "(toLowerCase (trim answer) = [0x79]) = askConfirmation answer"
    by (simp add: askConfirmation_def)
  show ?thesis
    unfolding eq using assms askConfirmation_letters[of answer]
    by (auto simp: push_at_prompt split: prod.splits option.splits)
qed

theorem push_confirmed_only_by_y_witness:
  "ending (push exampleEnv [''home''] exampleFs (Inr []) storingPut [0x79, 0x65, 0x73] ''u1'' ''new'') = OperationCancelled
   \<and> ending (push exampleEnv [''home''] exampleFs (Inr []) storingPut [] ''u1'' ''new'') = OperationCancelled
   \<and> putCalls (push exampleEnv [''home''] exampleFs (Inr []) storingPut [0x20, 0x59, 0x0A] ''u1'' ''new'') = examplePlan"
proof -
  have a: "toLowerCase (trim [0x79, 0x65, 0x73]) \<noteq> [0x79]" "toLowerCase (trim []) \<noteq> [0x79]"
      "toLowerCase (trim [0x20, 0x59, 0x0A]) = [0x79]"
    by (simp_all add: trim_def toLowerCase_def isWhiteSpace_def)
  have b: "fst (uploadFiles storingPut [] examplePlan) = examplePlan"
    by (simp add: storingPut_def examplePlan_def)
  show ?thesis
    using push_confirmed_only_by_y [OF example_promptReached, of "[0x79, 0x65, 0x73]" storingPut]
      push_confirmed_only_by_y [OF example_promptReached, of "[]" storingPut]
      push_confirmed_only_by_y [OF example_promptReached, of "[0x20, 0x59, 0x0A]" storingPut] a b
    by simp
qed

section \<open>The walks of backup and restore, and the copy as a mirror\<close>

text \<open>
  A copy into a destination that does not lie in the source, and a deletion, do exactly
  one thing to the file system when the fuel covers the depth of the tree: the copy
  places the tree read at the source at the destination, the deletion erases the tree.
  Both are proved along the tree, with the loop over the entries as the second half of
  the induction.
\<close>

lemma map_of_middle:
  "n \<notin> fst ` set pre \<Longrightarrow> map_of (pre @ (n, c) # ys) n = Some c"
  by (induction pre) auto

lemma map_of_absent: "n \<notin> fst ` set xs \<Longrightarrow> map_of xs n = None"
  by (simp add: map_of_eq_None_iff)

lemma parallel_snoc: "p \<parallel> q \<Longrightarrow> (p @ [n]) \<parallel> (q @ [m])"
  by (metis parallel_append parallel_commute)

lemma parallel_snoc_left: "p \<parallel> q \<Longrightarrow> (p @ [n]) \<parallel> q"
  using parallel_append[of p q "[n]" "[]"] by simp

lemma place_same: "stat t p = Inr x \<Longrightarrow> place p x t = t"
  by (induction p arbitrary: t) (auto simp: setEntry_same split: node.splits option.splits)

lemma copy_walk:
  shows copyDirectory_walk:
    "stat fs src = Inr t \<Longrightarrow> isDirectory t \<Longrightarrow> distinctNames t \<Longrightarrow> src \<parallel> dest \<Longrightarrow>
     mkdirSync fs dest = Inr fs1 \<Longrightarrow> stat fs1 dest = Inr (Dir []) \<Longrightarrow> depth t \<le> k \<Longrightarrow>
     copyDirectory k src dest fs = Some (place dest t fs1, None)"
  and copyEntries_walk:
    "stat fs src = Inr (Dir (pre @ ys)) \<Longrightarrow> distinct (map fst (pre @ ys)) \<Longrightarrow>
     distinctEntries ys \<Longrightarrow> stat fs dest = Inr (Dir xs) \<Longrightarrow>
     fst ` set xs \<inter> fst ` set ys = {} \<Longrightarrow> src \<parallel> dest \<Longrightarrow> depthEntries ys \<le> k \<Longrightarrow>
     copyEntries k src dest (map (\<lambda>(n, c). (n, isDirectory c)) ys) fs
       = Some (place dest (Dir (xs @ ys)) fs, None)"
proof (induction t and ys arbitrary: fs src dest fs1 k and fs src dest pre xs k
       rule: depth_depthEntries.induct)
  case (1 bs)
  then show ?case by simp
next
  case (2 es)
  from "2.prems" obtain k' where k: "k = Suc k'" and d: "depthEntries es \<le> k'"
    by (cases k) auto
  have src1: "stat fs1 src = Inr (Dir es)"
  proof -
    have "dest \<parallel> src" using "2.prems"(4) by (simp add: parallel_commute)
    from mkdirp_parallel[OF _ this, of fs fs1] "2.prems" show ?thesis
      by (simp add: mkdirSync_def)
  qed
  have "copyEntries k' src dest (map (\<lambda>(n, c). (n, isDirectory c)) es) fs1
          = Some (place dest (Dir ([] @ es)) fs1, None)"
    using "2.prems" src1 d by (intro "2.IH"[where pre = "[]"]) auto
  with "2.prems" src1 k show ?case by (simp add: readdirSync_def)
next
  case 3
  then show ?case by (simp add: place_same)
next
  case (4 n c ys)
  from "4.prems" have n_pre: "n \<notin> fst ` set pre" and n_ys: "n \<notin> fst ` set ys"
    and n_xs: "n \<notin> fst ` set xs" by auto
  have src_n: "stat fs (src @ [n]) = Inr c"
    using stat_child[OF "4.prems"(1), of n] map_of_middle[OF n_pre, of c ys] by simp
  have xs_n: "map_of xs n = None" using n_xs by (rule map_of_absent)
  have dest_n: "stat fs (dest @ [n]) = Inl ENOENT"
    using "4.prems"(4) xs_n by (simp add: stat_child)
  define fs' where "fs' = place (dest @ [n]) c fs"
  have fs'_eq: "fs' = place dest (Dir (xs @ [(n, c)])) fs"
    unfolding fs'_def using "4.prems"(4) xs_n by (simp add: place_child setEntry_new)
  have step: "(if isDirectory c then copyDirectory k (src @ [n]) (dest @ [n]) fs
         else (case copyFileSync fs (src @ [n]) (dest @ [n]) of
                 Inl e \<Rightarrow> Some (fs, Some e)
               | Inr fs' \<Rightarrow> Some (fs', None))) = Some (fs', None)"
  proof (cases c)
    case (File bs)
    with src_n dest_n "4.prems"(4) show ?thesis
      by (simp add: copyFileSync_def fs'_def)
  next
    case (Dir cs)
    have mk: "mkdirSync fs (dest @ [n]) = Inr (place (dest @ [n]) (Dir []) fs)"
      using "4.prems"(4) xs_n by (simp add: mkdirSync_def mkdirp_child)
    have fresh: "stat (place (dest @ [n]) (Dir []) fs) (dest @ [n]) = Inr (Dir [])"
      using stat_place_below[OF "4.prems"(4), of n "Dir []" "[]"] by simp
    have "copyDirectory k (src @ [n]) (dest @ [n]) fs
            = Some (place (dest @ [n]) c (place (dest @ [n]) (Dir []) fs), None)"
      using "4.prems" src_n Dir mk fresh
      by (intro "4.IH"(1)) (auto simp: parallel_snoc)
    with Dir show ?thesis by (simp add: fs'_def place_place)
  qed
  have src': "stat fs' src = Inr (Dir ((pre @ [(n, c)]) @ ys))"
  proof -
    have "dest \<parallel> src" using "4.prems"(6) by (simp add: parallel_commute)
    then have "(dest @ [n]) \<parallel> src" by (rule parallel_snoc_left)
    from stat_place_parallel[OF this] "4.prems"(1) show ?thesis by (simp add: fs'_def)
  qed
  have dest': "stat fs' dest = Inr (Dir (xs @ [(n, c)]))"
    using stat_place_at[OF "4.prems"(4), of "Dir (xs @ [(n, c)])" "[]"] by (simp add: fs'_eq)
  have "copyEntries k src dest (map (\<lambda>(n, c). (n, isDirectory c)) ys) fs'
          = Some (place dest (Dir ((xs @ [(n, c)]) @ ys)) fs', None)"
    using "4.prems" n_ys src' dest'
    by (intro "4.IH"(2)[where pre = "pre @ [(n, c)]"]) auto
  then have "copyEntries k src dest (map (\<lambda>(n, c). (n, isDirectory c)) ys) fs'
          = Some (place dest (Dir (xs @ (n, c) # ys)) fs, None)"
    by (simp add: fs'_eq place_place)
  with step show ?case by simp
qed

lemma filter_head_name:
  "n \<notin> fst ` set ys \<Longrightarrow> filter (\<lambda>(m, d). m \<noteq> n) ((n, c) # ys) = ys"
  by (induction ys) auto

lemma delete_walk:
  shows deleteDirectory_walk:
    "stat fs dir = Inr t \<Longrightarrow> isDirectory t \<Longrightarrow> distinctNames t \<Longrightarrow> dir \<noteq> [] \<Longrightarrow>
     depth t \<le> k \<Longrightarrow> deleteDirectory k dir fs = Some (erase dir fs, None)"
  and deleteEntries_walk:
    "stat fs dir = Inr (Dir ys) \<Longrightarrow> distinct (map fst ys) \<Longrightarrow> distinctEntries ys \<Longrightarrow>
     depthEntries ys \<le> k \<Longrightarrow>
     deleteEntries k dir (map fst ys) fs = Some (place dir (Dir []) fs, None)"
proof (induction t and ys arbitrary: fs dir k and fs dir k rule: depth_depthEntries.induct)
  case (1 bs)
  then show ?case by simp
next
  case (2 es)
  from "2.prems" obtain k' where k: "k = Suc k'" and d: "depthEntries es \<le> k'"
    by (cases k) auto
  have names: "fst \<circ> (\<lambda>(n, c). (n, isDirectory c)) = (fst :: name \<times> node \<Rightarrow> name)"
    by auto
  have walk: "deleteEntries k' dir (map fst es) fs = Some (place dir (Dir []) fs, None)"
    using "2.prems" d by (intro "2.IH") auto
  have emptied: "stat (place dir (Dir []) fs) dir = Inr (Dir [])"
    using stat_place_at[OF "2.prems"(1), of "Dir []" "[]"] by simp
  from "2.prems" k names walk emptied show ?case
    by (simp add: existsSync_def readdirSync_def rmdirSync_def erase_place)
next
  case 3
  then show ?case by (simp add: place_same)
next
  case (4 n c ys)
  from "4.prems" have n_ys: "n \<notin> fst ` set ys" by auto
  have at_n: "stat fs (dir @ [n]) = Inr c"
    using stat_child[OF "4.prems"(1), of n] by simp
  define fs' where "fs' = erase (dir @ [n]) fs"
  have fs'_eq: "fs' = place dir (Dir ys) fs"
    unfolding fs'_def using erase_child[OF "4.prems"(1), of n] filter_head_name[OF n_ys, of c]
    by simp
  have step: "(if isDirectory c then deleteDirectory k (dir @ [n]) fs
         else (case unlinkSync fs (dir @ [n]) of
                 Inl e \<Rightarrow> Some (fs, Some e)
               | Inr fs' \<Rightarrow> Some (fs', None))) = Some (fs', None)"
  proof (cases c)
    case (File bs)
    with at_n show ?thesis by (simp add: unlinkSync_def fs'_def)
  next
    case (Dir cs)
    have "deleteDirectory k (dir @ [n]) fs = Some (erase (dir @ [n]) fs, None)"
      using "4.prems" at_n Dir by (intro "4.IH"(1)) auto
    with Dir show ?thesis by (simp add: fs'_def)
  qed
  have dir': "stat fs' dir = Inr (Dir ys)"
    using stat_place_at[OF "4.prems"(1), of "Dir ys" "[]"] by (simp add: fs'_eq)
  have "deleteEntries k dir (map fst ys) fs' = Some (place dir (Dir []) fs', None)"
    using "4.prems" dir' by (intro "4.IH"(2)) auto
  then have "deleteEntries k dir (map fst ys) fs' = Some (place dir (Dir []) fs, None)"
    by (simp add: fs'_eq place_place)
  with step at_n show ?case by (simp add: lstatSync_def)
qed

lemma stat_prefix_exists:
  "prefix q p \<Longrightarrow> stat t p = Inr x \<Longrightarrow> \<exists>y. stat t q = Inr y"
  by (auto simp: prefix_def stat_append split: sum.splits)

lemma copy_into_fresh:
  assumes src: "stat fs src = Inr t" and dir: "isDirectory t" and dn: "distinctNames t"
    and fresh: "stat fs dest = Inl ENOENT" and outside: "\<not> prefix src dest"
    and fuel: "depth t \<le> fuel"
  shows "\<exists>fs'. copyDirectory fuel src dest fs = Some (fs', None) \<and> stat fs' dest = Inr t
           \<and> (\<forall>q. q \<parallel> dest \<longrightarrow> stat fs' q = stat fs q)"
proof -
  have "\<not> prefix dest src"
    using stat_prefix_exists[of dest src fs t] src fresh by auto
  with outside have par: "src \<parallel> dest" by (simp add: parallel_def)
  from mkdirp_fresh[OF fresh] obtain fs1 where
    mk: "mkdirSync fs dest = Inr fs1" and empty: "stat fs1 dest = Inr (Dir [])"
    by (auto simp: mkdirSync_def)
  have walk: "copyDirectory fuel src dest fs = Some (place dest t fs1, None)"
    using src dir dn par mk empty fuel by (rule copyDirectory_walk)
  have at: "stat (place dest t fs1) dest = Inr t"
    using stat_place_at[OF empty, of t "[]"] by simp
  have frame: "stat (place dest t fs1) q = stat fs q" if "q \<parallel> dest" for q
  proof -
    from that have "dest \<parallel> q" by (simp add: parallel_commute)
    with mk show ?thesis
      by (simp add: stat_place_parallel mkdirp_parallel[of dest fs fs1 q] mkdirSync_def)
  qed
  from walk at frame show ?thesis by blast
qed

lemma compare_same:
  shows compareFilesRecursively_same:
    "isDirectory t \<Longrightarrow> distinctNames t \<Longrightarrow> decodable t \<Longrightarrow>
     compareFilesRecursively oldPath t newPath t = ([], None)"
  and oldLoop_same:
    "distinct (map fst (pre @ ys)) \<Longrightarrow> distinctEntries ys \<Longrightarrow> decodableEntries ys \<Longrightarrow>
     oldLoop oldPath newPath (pre @ ys) ys = ([], None)"
proof (induction t and ys arbitrary: oldPath newPath and oldPath newPath pre
       rule: depth_depthEntries.induct)
  case (1 bs)
  then show ?case by simp
next
  case (2 es)
  have "oldLoop oldPath newPath ([] @ es) es = ([], None)"
    using "2.prems" by (intro "2.IH") auto
  then show ?case by (simp add: newLoop_all_known)
next
  case 3
  then show ?case by simp
next
  case (4 n c ys)
  from "4.prems" have "n \<notin> fst ` set pre" by auto
  then have here: "map_of (pre @ (n, c) # ys) n = Some c" by (rule map_of_middle)
  have rest: "oldLoop oldPath newPath ((pre @ [(n, c)]) @ ys) ys = ([], None)"
    using "4.prems" by (intro "4.IH"(2)) auto
  show ?case
  proof (cases c)
    case (File bs)
    with "4.prems" have small: "length bs \<le> kStringMaxLength" by simp
    then have "readNode (File bs) = Inr bs" by (rule readNode_decodable)
    moreover have "toString bs = Inr (utf8Decode 0 0 0x80 0xBF bs)"
      using small by (simp add: toString_def)
    ultimately show ?thesis using File here rest by simp
  next
    case (Dir cs)
    have "compareFilesRecursively (oldPath @ [n]) c (newPath @ [n]) c = ([], None)"
      using "4.prems" Dir by (intro "4.IH"(1)) auto
    with Dir here rest show ?thesis by simp
  qed
qed

lemma copy_into_itself:
  "stat fs p = Inr (Dir []) \<Longrightarrow> copyDirectory fuel p (p @ [n]) fs = None"
proof (induction fuel arbitrary: fs p)
  case 0
  then show ?case by simp
next
  case (Suc k)
  define fs1 where "fs1 = place (p @ [n]) (Dir []) fs"
  have mk: "mkdirSync fs (p @ [n]) = Inr fs1"
    using mkdirp_child[OF Suc.prems, of n] by (simp add: mkdirSync_def fs1_def)
  have fs1: "fs1 = place p (Dir [(n, Dir [])]) fs"
    using place_child[OF Suc.prems, of n "Dir []"] by (simp add: fs1_def)
  have here: "stat fs1 p = Inr (Dir [(n, Dir [])])"
    using stat_place_at[OF Suc.prems, of "Dir [(n, Dir [])]" "[]"] by (simp add: fs1)
  have below: "stat fs1 (p @ [n]) = Inr (Dir [])"
    using stat_place_below[OF Suc.prems, of n "Dir []" "[]"] by (simp add: fs1_def)
  have "copyDirectory k (p @ [n]) ((p @ [n]) @ [n]) fs1 = None"
    using below by (rule Suc.IH)
  with mk here show ?case by (simp add: readdirSync_def)
qed

text \<open>
  Claim C7 as stated: for every directory tree and every fresh destination, the copy
  followed by the diff yields no entries. A destination that does not exist may still
  lie inside the tree: for the empty directory \<open>/t\<close> and the destination
  \<open>/t/d\<close>, \<open>copyDirectory\<close> makes \<open>/t/d\<close>, then finds it among the
  entries of \<open>/t\<close> and copies it into \<open>/t/d/d\<close>, and so on: whatever the
  fuel, the copy does not return (on a machine it ends in an error once the path is too
  long), and there is no tree to diff. And a copy that succeeds may still not be
  comparable: for the tree \<open>/t\<close> with one file of 536870889 bytes and the
  destination \<open>/d\<close>, the copy is exact, and \<open>compare\<close> throws
  \<open>ERR_STRING_TOO_LONG\<close> at \<open>toString\<close> instead of printing nothing.
\<close>

theorem copy_into_own_subdirectory_never_returns:
  "stat (Dir [(''t'', Dir [])]) [''t''] = Inr (Dir [])
   \<and> stat (Dir [(''t'', Dir [])]) [''t'', ''d''] = Inl ENOENT
   \<and> (\<forall>fuel. copyDirectory fuel [''t''] [''t'', ''d''] (Dir [(''t'', Dir [])]) = None)
   \<and> stat (Dir [(''t'', Dir [(''f'', File (replicate 536870889 0x41))])]) [''d''] = Inl ENOENT
   \<and> copyDirectory 1 [''t''] [''d''] (Dir [(''t'', Dir [(''f'', File (replicate 536870889 0x41))])])
       = Some (Dir [(''t'', Dir [(''f'', File (replicate 536870889 0x41))]),
                    (''d'', Dir [(''f'', File (replicate 536870889 0x41))])], None)
   \<and> compareTrees (Dir [(''t'', Dir [(''f'', File (replicate 536870889 0x41))]),
                         (''d'', Dir [(''f'', File (replicate 536870889 0x41))])]) [''t''] [''d'']
       = ([], Some ERR_STRING_TOO_LONG)"
proof -
  have "\<forall>fuel. copyDirectory fuel [''t''] [''t'', ''d''] (Dir [(''t'', Dir [])]) = None"
    using copy_into_itself[of "Dir [(''t'', Dir [])]" "[''t'']" _ "''d''"] by simp
  moreover have "copyDirectory 1 [''t''] [''d'']
        (Dir [(''t'', Dir [(''f'', File (replicate 536870889 0x41))])])
       = Some (Dir [(''t'', Dir [(''f'', File (replicate 536870889 0x41))]),
                    (''d'', Dir [(''f'', File (replicate 536870889 0x41))])], None)"
    by (simp add: mkdirSync_def readdirSync_def copyFileSync_def)
  moreover have "compareTrees (Dir [(''t'', Dir [(''f'', File (replicate 536870889 0x41))]),
                         (''d'', Dir [(''f'', File (replicate 536870889 0x41))])]) [''t''] [''d'']
       = ([], Some ERR_STRING_TOO_LONG)"
    by (simp add: compareTrees_def readNode_def toString_def kIoMaxLength_def
        kStringMaxLength_def)
  ultimately show ?thesis by simp
qed

text \<open>
  Claim C7, amended: for every directory tree \<open>t\<close> at \<open>src\<close> and every
  destination \<open>dest\<close> that does not exist (\<open>ENOENT\<close>: its path stops
  at a missing entry of a directory) and does not lie inside the tree,
  \<open>copyDirectory(src, dest)\<close> ends without an error when the fuel covers the depth
  of the tree, and the tree at \<open>dest\<close> is then the tree at \<open>src\<close>.
  When moreover no file of the tree is longer than 536870888 bytes, the longest buffer
  that \<open>toString\<close> decodes, comparing the two ends without an error and prints
  nothing: no \<open>differs\<close>, no \<open>missing in new\<close>, no
  \<open>missing in old\<close>.
\<close>

theorem copy_then_diff_is_empty:
  assumes "stat fs src = Inr t" and "isDirectory t" and "distinctNames t"
    and "stat fs dest = Inl ENOENT" and "\<not> prefix src dest"
    and "depth t \<le> fuel"
  shows "\<exists>fs'. copyDirectory fuel src dest fs = Some (fs', None)
           \<and> stat fs' src = Inr t \<and> stat fs' dest = Inr t
           \<and> (decodable t \<longrightarrow> compareTrees fs' src dest = ([], None))"
proof -
  from copy_into_fresh[OF assms] obtain fs' where
    c: "copyDirectory fuel src dest fs = Some (fs', None)" and d: "stat fs' dest = Inr t"
    and f: "\<forall>q. q \<parallel> dest \<longrightarrow> stat fs' q = stat fs q"
    by blast
  have "\<not> prefix dest src"
    using stat_prefix_exists[of dest src fs t] assms(1,4) by auto
  with assms(5) f have s: "stat fs' src = Inr t" using assms(1) by (simp add: parallel_def)
  have "compareTrees fs' src dest = compareFilesRecursively src t dest t"
    using s d assms(2)
    by (cases t) (simp_all add: compareTrees_def del: compareFilesRecursively.simps)
  then have "decodable t \<longrightarrow> compareTrees fs' src dest = ([], None)"
    using assms(2,3) by (simp add: compareFilesRecursively_same del: compareFilesRecursively.simps)
  then show ?thesis using c s d by blast
qed

theorem copy_then_diff_is_empty_witness:
  "\<exists>fs'. copyDirectory 2 [''home'', ''u1''] [''home'', ''u1_copy''] exampleFs = Some (fs', None)
     \<and> stat fs' [''home'', ''u1_copy''] = stat exampleFs [''home'', ''u1'']
     \<and> compareTrees fs' [''home'', ''u1''] [''home'', ''u1_copy''] = ([], None)"
  using copy_then_diff_is_empty [of exampleFs "[''home'', ''u1'']"
      "Dir [(''old'', Dir [(''a.txt'', File [0x78])]),
            (''new'', Dir [(''a.txt'', File [0x79]), (''b.txt'', File [0x7A]), (''c.txt'', File [])])]"
      "[''home'', ''u1_copy'']" 2]
  by (auto simp: exampleFs_def kStringMaxLength_def)

section \<open>What remove leaves\<close>

lemma isDirectory_erase: "p \<noteq> [] \<Longrightarrow> isDirectory t \<Longrightarrow> isDirectory (erase p t)"
  by (cases p; cases t) (auto split: option.splits)

lemma path_trichotomy: "p \<parallel> q \<or> prefix p q \<or> strict_prefix q p"
  by (auto simp: parallel_def strict_prefix_def)

lemma erase_file_others:
  assumes isfile: "stat t p = Inr (File bs)" and root: "isDirectory t" and q: "notDirectory t q"
  shows "notDirectory (erase p t) q \<and> existsSync (erase p t) q = (q \<noteq> p \<and> existsSync t q)"
proof -
  from isfile root have p: "p \<noteq> []" by (cases p) auto
  have gone: "stat (erase p t) p = Inl ENOENT" using p isfile by (rule stat_erase_at)
  consider (par) "p \<parallel> q" | (below) r where "q = p @ r" | (above) "strict_prefix q p"
    using path_trichotomy[of p q] by (auto simp: prefix_def)
  then show ?thesis
  proof cases
    case par
    then have "q \<noteq> p" by (auto simp: parallel_def)
    with par q show ?thesis by (simp add: stat_erase_parallel notDirectory_def existsSync_def)
  next
    case below
    show ?thesis
    proof (cases "r = []")
      case True
      with below gone show ?thesis by (simp add: notDirectory_def existsSync_def)
    next
      case False
      then obtain n r' where r: "r = n # r'" by (cases r) auto
      with below isfile gone show ?thesis
        by (simp add: notDirectory_def existsSync_def stat_append)
    qed
  next
    case above
    then obtain n r where pq: "p = q @ n # r"
      by (auto simp: strict_prefix_def prefix_def) (metis list.exhaust append_Nil2)
    with isfile obtain c where c: "stat t q = Inr c" and "stat c (n # r) = Inr (File bs)"
      by (auto simp: stat_append split: sum.splits)
    then have "isDirectory c" by (cases c) auto
    with c q show ?thesis by (simp add: notDirectory_def)
  qed
qed

lemma existsSyncName_file:
  "notDirectory fs p \<Longrightarrow> existsSyncName fs (p, s) = (existsSync fs p \<and> \<not> s)"
  by (auto simp: existsSyncName_def statName_def existsSync_def notDirectory_def
      split: sum.splits node.splits)

lemma target_separator:
  assumes "isDirectory fs"
  shows "notDirectory fs (fst (oldTarget cwd updateDir filePath)) \<Longrightarrow>
         snd (oldTarget cwd updateDir filePath) = trailingSeparator filePath"
    and "notDirectory fs (fst (newTarget cwd updateDir filePath)) \<Longrightarrow>
         snd (newTarget cwd updateDir filePath) = trailingSeparator filePath"
  using assms by (auto simp: oldTarget_def newTarget_def Let_def notDirectory_def)

lemma removeFileIfExists_file:
  assumes root: "isDirectory fs" and p: "notDirectory fs p"
  shows "\<exists>fs'. removeFileIfExists fs (p, s)
             = (fs', [if existsSyncName fs (p, s) then Removed (p, s) else DoesNotExist (p, s)], None)
           \<and> isDirectory fs' \<and> \<not> existsSyncName fs' (p, s)
           \<and> (s \<longrightarrow> fs' = fs) \<and> (\<not> s \<longrightarrow> \<not> existsSync fs' p)
           \<and> (\<forall>q. notDirectory fs q \<longrightarrow>
                 notDirectory fs' q \<and> existsSync fs' q = ((s \<or> q \<noteq> p) \<and> existsSync fs q))"
proof (cases "existsSyncName fs (p, s)")
  case False
  then have "removeFileIfExists fs (p, s) = (fs, [DoesNotExist (p, s)], None)"
    by (simp add: removeFileIfExists_def)
  moreover from False p have "s \<or> \<not> existsSync fs p" by (auto simp: existsSyncName_file)
  ultimately show ?thesis using root False by auto
next
  case True
  with p have here: "existsSync fs p" and s: "\<not> s" by (simp_all add: existsSyncName_file)
  from here obtain c where c: "stat fs p = Inr c"
    by (auto simp: existsSync_def split: sum.splits)
  with p obtain bs where isfile: "stat fs p = Inr (File bs)"
    by (cases c) (auto simp: notDirectory_def)
  from isfile root have "p \<noteq> []" by (cases p) auto
  then have "isDirectory (erase p fs)" using root by (rule isDirectory_erase)
  moreover have gone: "\<not> existsSync (erase p fs) p"
    using erase_file_others[OF isfile root p] by simp
  moreover have "notDirectory (erase p fs) p"
    using erase_file_others[OF isfile root p] by simp
  then have "\<not> existsSyncName (erase p fs) (p, s)"
    using gone by (simp add: existsSyncName_file)
  moreover have "removeFileIfExists fs (p, s) = (erase p fs, [Removed (p, s)], None)"
    using isfile s True
    by (simp add: removeFileIfExists_def unlinkSyncName_def statName_def unlinkSync_def)
  ultimately show ?thesis
    using True s erase_file_others[OF isfile root] by auto
qed

text \<open>
  Claim C8 as stated: for every relative path, \<open>remove\<close> never fails. A path
  that names a directory on one side exists, so \<open>removeFileIfExists\<close> calls
  \<open>unlinkSync\<close> on it, which throws \<open>EISDIR\<close>; nothing is printed and
  nothing removed.
\<close>

theorem remove_directory_throws:
  "remove [] (Dir [(''u1'', Dir [(''old'', Dir [(''d'', Dir [])]), (''new'', Dir [])])]) ''u1'' ''d''
     = (Dir [(''u1'', Dir [(''old'', Dir [(''d'', Dir [])]), (''new'', Dir [])])], [], Some EISDIR)"
  by (simp add: remove_def removeFileIfExists_def oldTarget_def newTarget_def existsSyncName_def
      statName_def unlinkSyncName_def unlinkSync_def trailingSeparator_def resolve_def
      joinSegments_def normalizeString_def normalizeStep_def isAbsolute_def)

text \<open>
  Claim C8, amended: for a path that names a regular file or nothing in each subtree,
  \<open>remove\<close> deletes the file from \<open>old\<close> and from \<open>new\<close> where
  it is present and prints for each side whether it was removed or does not exist; an
  absent file is a printed no-op and not an error, so a second \<open>remove\<close> right
  after the first does not fail either, changes nothing and finds the name on neither
  side. When the path climbs out of the subtree with \<open>..\<close>, both sides name the
  same file, and the second line then reports it gone. A path that ends in a separator
  names a directory or nothing: where a regular file stands before the separator,
  \<open>remove\<close> reports on both sides that the name does not exist and leaves the
  file system as it is. Without the separator the path itself is gone from both sides
  after the first \<open>remove\<close>.
\<close>

theorem remove_twice:
  assumes root: "isDirectory fs"
    and old: "notDirectory fs (fst (oldTarget cwd updateDir filePath))"
    and new: "notDirectory fs (fst (newTarget cwd updateDir filePath))"
  shows "\<exists>fs1. remove cwd fs updateDir filePath =
           (fs1,
            [if existsSyncName fs (oldTarget cwd updateDir filePath)
             then Removed (oldTarget cwd updateDir filePath)
             else DoesNotExist (oldTarget cwd updateDir filePath),
             if existsSyncName fs (newTarget cwd updateDir filePath)
                \<and> newTarget cwd updateDir filePath \<noteq> oldTarget cwd updateDir filePath
             then Removed (newTarget cwd updateDir filePath)
             else DoesNotExist (newTarget cwd updateDir filePath)],
            None)
         \<and> \<not> existsSyncName fs1 (oldTarget cwd updateDir filePath)
         \<and> \<not> existsSyncName fs1 (newTarget cwd updateDir filePath)
         \<and> (trailingSeparator filePath \<longrightarrow> fs1 = fs)
         \<and> (\<not> trailingSeparator filePath \<longrightarrow>
              \<not> existsSync fs1 (fst (oldTarget cwd updateDir filePath))
              \<and> \<not> existsSync fs1 (fst (newTarget cwd updateDir filePath)))
         \<and> remove cwd fs1 updateDir filePath =
           (fs1,
            [DoesNotExist (oldTarget cwd updateDir filePath),
             DoesNotExist (newTarget cwd updateDir filePath)],
            None)"
proof -
  define s where "s = trailingSeparator filePath"
  define a where "a = fst (oldTarget cwd updateDir filePath)"
  define b where "b = fst (newTarget cwd updateDir filePath)"
  have ta: "oldTarget cwd updateDir filePath = (a, s)"
    using target_separator(1)[OF root old] by (simp add: a_def s_def prod_eq_iff)
  have tb: "newTarget cwd updateDir filePath = (b, s)"
    using target_separator(2)[OF root new] by (simp add: b_def s_def prod_eq_iff)
  from old new have olda: "notDirectory fs a" and newb: "notDirectory fs b"
    by (simp_all add: a_def b_def)
  from removeFileIfExists_file[OF root olda, of s] obtain fs1 where
    r1: "removeFileIfExists fs (a, s)
           = (fs1, [if existsSyncName fs (a, s) then Removed (a, s) else DoesNotExist (a, s)], None)"
    and root1: "isDirectory fs1" and gone1: "\<not> existsSyncName fs1 (a, s)"
    and same1: "s \<longrightarrow> fs1 = fs" and away1: "\<not> s \<longrightarrow> \<not> existsSync fs1 a"
    and keep1: "\<forall>q. notDirectory fs q \<longrightarrow>
                 notDirectory fs1 q \<and> existsSync fs1 q = ((s \<or> q \<noteq> a) \<and> existsSync fs q)"
    by blast
  from keep1 newb have nb: "notDirectory fs1 b"
    and eb: "existsSync fs1 b = ((s \<or> b \<noteq> a) \<and> existsSync fs b)"
    by auto
  from keep1 olda have na: "notDirectory fs1 a" by auto
  have eb': "existsSyncName fs1 (b, s) = (existsSyncName fs (b, s) \<and> b \<noteq> a)"
    using eb by (auto simp: existsSyncName_file[OF nb] existsSyncName_file[OF newb])
  from removeFileIfExists_file[OF root1 nb, of s] obtain fs2 where
    r2: "removeFileIfExists fs1 (b, s)
           = (fs2, [if existsSyncName fs1 (b, s) then Removed (b, s) else DoesNotExist (b, s)], None)"
    and root2: "isDirectory fs2" and gone2: "\<not> existsSyncName fs2 (b, s)"
    and same2: "s \<longrightarrow> fs2 = fs1" and away2: "\<not> s \<longrightarrow> \<not> existsSync fs2 b"
    and keep2: "\<forall>q. notDirectory fs1 q \<longrightarrow>
                 notDirectory fs2 q \<and> existsSync fs2 q = ((s \<or> q \<noteq> b) \<and> existsSync fs1 q)"
    by blast
  from keep2 na have na2: "notDirectory fs2 a"
    and ea2: "existsSync fs2 a = ((s \<or> a \<noteq> b) \<and> existsSync fs1 a)"
    by auto
  have gone2a: "\<not> existsSyncName fs2 (a, s)"
    using gone1 ea2 by (auto simp: existsSyncName_file[OF na2] existsSyncName_file[OF na])
  have away2a: "\<not> s \<longrightarrow> \<not> existsSync fs2 a" using away1 ea2 by auto
  have first: "remove cwd fs updateDir filePath =
      (fs2, [if existsSyncName fs (a, s) then Removed (a, s) else DoesNotExist (a, s),
             if existsSyncName fs (b, s) \<and> (b, s) \<noteq> (a, s) then Removed (b, s)
             else DoesNotExist (b, s)], None)"
    using r1 r2 eb' by (auto simp: remove_def ta tb)
  have second: "remove cwd fs2 updateDir filePath
      = (fs2, [DoesNotExist (a, s), DoesNotExist (b, s)], None)"
    using gone2 gone2a by (simp add: remove_def removeFileIfExists_def ta tb)
  have "s \<longrightarrow> fs2 = fs" using same1 same2 by simp
  with first second gone2 gone2a away2 away2a show ?thesis
    unfolding ta tb s_def[symmetric] by auto
qed

theorem remove_twice_witness:
  "(\<exists>fs1. remove [''home''] exampleFs ''u1'' ''a.txt'' =
           (fs1, [Removed ([''home'', ''u1'', ''old'', ''a.txt''], False),
                  Removed ([''home'', ''u1'', ''new'', ''a.txt''], False)], None)
         \<and> \<not> existsSync fs1 [''home'', ''u1'', ''old'', ''a.txt'']
         \<and> \<not> existsSync fs1 [''home'', ''u1'', ''new'', ''a.txt'']
         \<and> remove [''home''] fs1 ''u1'' ''a.txt'' =
           (fs1, [DoesNotExist ([''home'', ''u1'', ''old'', ''a.txt''], False),
                  DoesNotExist ([''home'', ''u1'', ''new'', ''a.txt''], False)], None))
   \<and> remove [''home''] exampleFs ''u1'' ''a.txt/'' =
           (exampleFs, [DoesNotExist ([''home'', ''u1'', ''old'', ''a.txt''], True),
                        DoesNotExist ([''home'', ''u1'', ''new'', ''a.txt''], True)], None)"
proof -
  have o: "oldTarget [''home''] ''u1'' ''a.txt'' = ([''home'', ''u1'', ''old'', ''a.txt''], False)"
    "oldTarget [''home''] ''u1'' ''a.txt/'' = ([''home'', ''u1'', ''old'', ''a.txt''], True)"
    and n: "newTarget [''home''] ''u1'' ''a.txt'' = ([''home'', ''u1'', ''new'', ''a.txt''], False)"
    "newTarget [''home''] ''u1'' ''a.txt/'' = ([''home'', ''u1'', ''new'', ''a.txt''], True)"
    and t: "\<not> trailingSeparator ''a.txt''" "trailingSeparator ''a.txt/''"
    by (simp_all add: oldTarget_def newTarget_def trailingSeparator_def resolve_def
        joinSegments_def normalizeString_def normalizeStep_def isAbsolute_def)
  have h: "isDirectory exampleFs" "notDirectory exampleFs [''home'', ''u1'', ''old'', ''a.txt'']"
    "notDirectory exampleFs [''home'', ''u1'', ''new'', ''a.txt'']"
    "existsSyncName exampleFs ([''home'', ''u1'', ''old'', ''a.txt''], False)"
    "existsSyncName exampleFs ([''home'', ''u1'', ''new'', ''a.txt''], False)"
    "\<not> existsSyncName exampleFs ([''home'', ''u1'', ''old'', ''a.txt''], True)"
    "\<not> existsSyncName exampleFs ([''home'', ''u1'', ''new'', ''a.txt''], True)"
    by (simp_all add: exampleFs_def notDirectory_def existsSyncName_def statName_def)
  have plain: "\<exists>fs1. remove [''home''] exampleFs ''u1'' ''a.txt'' =
           (fs1, [Removed ([''home'', ''u1'', ''old'', ''a.txt''], False),
                  Removed ([''home'', ''u1'', ''new'', ''a.txt''], False)], None)
         \<and> \<not> existsSync fs1 [''home'', ''u1'', ''old'', ''a.txt'']
         \<and> \<not> existsSync fs1 [''home'', ''u1'', ''new'', ''a.txt'']
         \<and> remove [''home''] fs1 ''u1'' ''a.txt'' =
           (fs1, [DoesNotExist ([''home'', ''u1'', ''old'', ''a.txt''], False),
                  DoesNotExist ([''home'', ''u1'', ''new'', ''a.txt''], False)], None)"
    using remove_twice [of exampleFs "[''home'']" "''u1''" "''a.txt''"] h
    unfolding o n by (auto simp: t)
  have separator: "remove [''home''] exampleFs ''u1'' ''a.txt/'' =
           (exampleFs, [DoesNotExist ([''home'', ''u1'', ''old'', ''a.txt''], True),
                        DoesNotExist ([''home'', ''u1'', ''new'', ''a.txt''], True)], None)"
    using remove_twice [of exampleFs "[''home'']" "''u1''" "''a.txt/''"] h
    unfolding o n by (auto simp: t)
  from plain separator show ?thesis by blast
qed

section \<open>What restore leaves\<close>

lemma backupName_parallel: "root \<noteq> [] \<Longrightarrow> root \<parallel> backupName root now"
proof -
  assume "root \<noteq> []"
  then obtain ini l where r: "root = ini @ [l]" by (cases root rule: rev_cases) auto
  have "l \<noteq> l @ ''_backup_'' @ decimal now" by simp
  then show ?thesis unfolding r by (simp add: backupName_def parallel_def)
qed

lemma restore_missing_backup:
  "\<not> existsSync fs (resolve cwd backupDir) \<Longrightarrow>
   restore fuel cwd fs updateDir backupDir = Some (fs, BackupDoesNotExist)"
  by (simp add: restore_def)

lemma restore_from_outside:
  assumes b: "directoryTree fs (resolve cwd backupDir) b fuel"
    and par: "resolve cwd backupDir \<parallel> resolve cwd updateDir"
    and r: "directoryOrAbsent fs (resolve cwd updateDir) fuel"
  shows "\<exists>fs'. restore fuel cwd fs updateDir backupDir = Some (fs', Restored)
           \<and> stat fs' (resolve cwd updateDir) = Inr b
           \<and> stat fs' (resolve cwd backupDir) = Inr b"
proof -
  define root where "root = resolve cwd updateDir"
  define bk where "bk = resolve cwd backupDir"
  note par' = par[folded root_def bk_def]
  from b have sb: "stat fs bk = Inr b" and db: "isDirectory b" and nb: "distinctNames b"
    and fb: "depth b \<le> fuel"
    by (simp_all add: directoryTree_def bk_def)
  from par' have root_ne: "root \<noteq> []" by (auto simp: parallel_def)
  have "\<exists>fs1. deleteDirectory fuel root fs = Some (fs1, None)
            \<and> stat fs1 root = Inl ENOENT \<and> stat fs1 bk = Inr b"
  proof (cases "stat fs root")
    case (Inl e)
    with r have e: "stat fs root = Inl ENOENT" by (simp add: directoryOrAbsent_def root_def)
    from db fb obtain k where "fuel = Suc k" by (cases b; cases fuel) auto
    with e sb show ?thesis by (simp add: existsSync_def)
  next
    case (Inr t)
    with r have "isDirectory t" "distinctNames t" "depth t \<le> fuel"
      by (simp_all add: directoryOrAbsent_def root_def)
    with Inr root_ne have "deleteDirectory fuel root fs = Some (erase root fs, None)"
      by (intro deleteDirectory_walk)
    moreover have "stat (erase root fs) root = Inl ENOENT"
      using root_ne Inr by (rule stat_erase_at)
    moreover have "stat (erase root fs) bk = Inr b"
      using par' sb by (simp add: stat_erase_parallel parallel_commute)
    ultimately show ?thesis by blast
  qed
  then obtain fs1 where del: "deleteDirectory fuel root fs = Some (fs1, None)"
    and gone: "stat fs1 root = Inl ENOENT" and sb1: "stat fs1 bk = Inr b"
    by blast
  from par' have "\<not> prefix bk root" by (simp add: parallel_def)
  from copy_into_fresh[OF sb1 db nb gone this fb] obtain fs2 where
    cp: "copyDirectory fuel bk root fs1 = Some (fs2, None)" and at: "stat fs2 root = Inr b"
    and frame: "\<forall>q. q \<parallel> root \<longrightarrow> stat fs2 q = stat fs1 q"
    by blast
  from frame par' sb1 have "stat fs2 bk = Inr b" by simp
  moreover have "restore fuel cwd fs updateDir backupDir = Some (fs2, Restored)"
    using sb del cp by (simp add: restore_def existsSync_def root_def bk_def)
  ultimately show ?thesis using at unfolding root_def bk_def by blast
qed

lemma backup_copies_root:
  assumes t: "directoryTree fs (resolve cwd updateDir) t fuel"
    and ne: "resolve cwd updateDir \<noteq> []"
    and fresh: "stat fs (backupName (resolve cwd updateDir) now) = Inl ENOENT"
  shows "\<exists>fs1. backup fuel cwd fs now updateDir = Some (fs1, None)
           \<and> stat fs1 (resolve cwd updateDir) = Inr t
           \<and> stat fs1 (backupName (resolve cwd updateDir) now) = Inr t"
proof -
  define root where "root = resolve cwd updateDir"
  from backupName_parallel[of root now] ne have par: "root \<parallel> backupName root now"
    by (simp add: root_def)
  then have np: "\<not> prefix root (backupName root now)" by (simp add: parallel_def)
  from t have st: "stat fs root = Inr t" and dt: "isDirectory t" and nt: "distinctNames t"
    and ft: "depth t \<le> fuel"
    by (simp_all add: directoryTree_def root_def)
  from copy_into_fresh[OF st dt nt fresh[folded root_def] np ft] obtain fs1 where
    "copyDirectory fuel root (backupName root now) fs = Some (fs1, None)"
    "stat fs1 (backupName root now) = Inr t"
    "\<forall>q. q \<parallel> backupName root now \<longrightarrow> stat fs1 q = stat fs q"
    by blast
  with par st show ?thesis
    unfolding root_def by (auto simp: backup_def)
qed

text \<open>
  Claim C6 as stated: for every root and backup root, \<open>restore\<close> fails when the
  backup root does not exist and otherwise deletes the root and replaces it with a full
  copy of the backup root. The second half is false for a backup root that lies inside
  the root: \<open>deleteDirectory\<close> deletes it with the root, and
  \<open>copyDirectory\<close> then throws \<open>ENOENT\<close> over an empty root. And the
  diff of the last sentence is not empty for every tree that was restored exactly: with
  a file of 536870889 bytes in the root, \<open>backup\<close> and \<open>restore\<close>
  bring the tree back, and \<open>compare\<close> of that tree with itself throws
  \<open>ERR_STRING_TOO_LONG\<close> at \<open>toString\<close>.
\<close>

theorem restore_backup_inside_root:
  "existsSync (Dir [(''u1'', Dir [(''old'', Dir [(''a.txt'', File [0x78])]), (''new'', Dir [])])])
     (resolve [] ''u1/old'')
   \<and> restore 3 [] (Dir [(''u1'', Dir [(''old'', Dir [(''a.txt'', File [0x78])]), (''new'', Dir [])])])
       ''u1'' ''u1/old''
     = Some (Dir [(''u1'', Dir [])], RestoreThrows ENOENT)
   \<and> backup 2 [] (Dir [(''u1'', Dir [(''f'', File (replicate 536870889 0x41))])]) 7 ''u1''
     = Some (Dir [(''u1'', Dir [(''f'', File (replicate 536870889 0x41))]),
                  (''u1_backup_7'', Dir [(''f'', File (replicate 536870889 0x41))])], None)
   \<and> restore 2 [] (Dir [(''u1'', Dir [(''f'', File (replicate 536870889 0x41))]),
                         (''u1_backup_7'', Dir [(''f'', File (replicate 536870889 0x41))])])
       ''u1'' ''u1_backup_7''
     = Some (Dir [(''u1_backup_7'', Dir [(''f'', File (replicate 536870889 0x41))]),
                  (''u1'', Dir [(''f'', File (replicate 536870889 0x41))])], Restored)
   \<and> compareFilesRecursively [''u1''] (Dir [(''f'', File (replicate 536870889 0x41))])
         [''u1''] (Dir [(''f'', File (replicate 536870889 0x41))])
     = ([], Some ERR_STRING_TOO_LONG)"
proof -
  have "restore 3 [] (Dir [(''u1'', Dir [(''old'', Dir [(''a.txt'', File [0x78])]), (''new'', Dir [])])])
       ''u1'' ''u1/old''
     = Some (Dir [(''u1'', Dir [])], RestoreThrows ENOENT)"
    by (simp add: restore_def existsSync_def resolve_def normalizeString_def normalizeStep_def
        isAbsolute_def eval_nat_numeral readdirSync_def lstatSync_def unlinkSync_def rmdirSync_def
        mkdirSync_def)
  moreover have "existsSync
      (Dir [(''u1'', Dir [(''old'', Dir [(''a.txt'', File [0x78])]), (''new'', Dir [])])])
      (resolve [] ''u1/old'')"
    by (simp add: existsSync_def resolve_def normalizeString_def normalizeStep_def isAbsolute_def)
  moreover have "backup 2 [] (Dir [(''u1'', Dir [(''f'', File (replicate 536870889 0x41))])]) 7 ''u1''
     = Some (Dir [(''u1'', Dir [(''f'', File (replicate 536870889 0x41))]),
                  (''u1_backup_7'', Dir [(''f'', File (replicate 536870889 0x41))])], None)"
    by (simp add: backup_def resolve_def normalizeString_def normalizeStep_def isAbsolute_def
        numeral_2_eq_2 readdirSync_def mkdirSync_def copyFileSync_def backupName_def digit_def)
  moreover have "restore 2 [] (Dir [(''u1'', Dir [(''f'', File (replicate 536870889 0x41))]),
                         (''u1_backup_7'', Dir [(''f'', File (replicate 536870889 0x41))])])
       ''u1'' ''u1_backup_7''
     = Some (Dir [(''u1_backup_7'', Dir [(''f'', File (replicate 536870889 0x41))]),
                  (''u1'', Dir [(''f'', File (replicate 536870889 0x41))])], Restored)"
    by (simp add: restore_def existsSync_def resolve_def normalizeString_def normalizeStep_def
        isAbsolute_def numeral_2_eq_2 readdirSync_def lstatSync_def unlinkSync_def rmdirSync_def
        mkdirSync_def copyFileSync_def)
  moreover have "compareFilesRecursively [''u1''] (Dir [(''f'', File (replicate 536870889 0x41))])
         [''u1''] (Dir [(''f'', File (replicate 536870889 0x41))])
     = ([], Some ERR_STRING_TOO_LONG)"
    by (simp add: readNode_def toString_def kIoMaxLength_def kStringMaxLength_def)
  ultimately show ?thesis by simp
qed

text \<open>
  Claim C6, amended: \<open>restore\<close> returns early and leaves the file system unchanged
  when the backup root does not exist. When the backup root is a directory, neither of
  root and backup root lies inside the other, and the root is a directory or does not
  exist, \<open>restore\<close> ends without an error and the root is then the tree of the
  backup root, which is still there. Hence after \<open>backup\<close> of a root that is a
  directory, into a name that was free, and \<open>restore\<close> from that backup, the
  root is the tree it was; when moreover no file of that tree is longer than 536870888
  bytes, the longest buffer that \<open>toString\<close> decodes, comparing the tree before
  with the tree after ends without an error and prints nothing. The fuel covers the depth
  of the trees.
\<close>

theorem restore_replaces_root:
  "(\<not> existsSync fs (resolve cwd backupDir) \<longrightarrow>
      restore fuel cwd fs updateDir backupDir = Some (fs, BackupDoesNotExist))
   \<and> (\<forall>b. directoryTree fs (resolve cwd backupDir) b fuel
          \<and> resolve cwd backupDir \<parallel> resolve cwd updateDir
          \<and> directoryOrAbsent fs (resolve cwd updateDir) fuel \<longrightarrow>
        (\<exists>fs'. restore fuel cwd fs updateDir backupDir = Some (fs', Restored)
           \<and> stat fs' (resolve cwd updateDir) = Inr b
           \<and> stat fs' (resolve cwd backupDir) = Inr b))
   \<and> (\<forall>t now. directoryTree fs (resolve cwd updateDir) t fuel
          \<and> resolve cwd updateDir \<noteq> []
          \<and> stat fs (backupName (resolve cwd updateDir) now) = Inl ENOENT
          \<and> resolve cwd backupDir = backupName (resolve cwd updateDir) now \<longrightarrow>
        (\<exists>fs1 fs2. backup fuel cwd fs now updateDir = Some (fs1, None)
           \<and> restore fuel cwd fs1 updateDir backupDir = Some (fs2, Restored)
           \<and> stat fs2 (resolve cwd updateDir) = Inr t
           \<and> (decodable t \<longrightarrow>
                compareFilesRecursively (resolve cwd updateDir) t (resolve cwd updateDir) t
                  = ([], None))))"
proof (intro conjI allI impI)
  assume "\<not> existsSync fs (resolve cwd backupDir)"
  then show "restore fuel cwd fs updateDir backupDir = Some (fs, BackupDoesNotExist)"
    by (rule restore_missing_backup)
next
  fix b
  assume "directoryTree fs (resolve cwd backupDir) b fuel
          \<and> resolve cwd backupDir \<parallel> resolve cwd updateDir
          \<and> directoryOrAbsent fs (resolve cwd updateDir) fuel"
  then show "\<exists>fs'. restore fuel cwd fs updateDir backupDir = Some (fs', Restored)
           \<and> stat fs' (resolve cwd updateDir) = Inr b
           \<and> stat fs' (resolve cwd backupDir) = Inr b"
    by (intro restore_from_outside) auto
next
  fix t now
  assume h: "directoryTree fs (resolve cwd updateDir) t fuel
          \<and> resolve cwd updateDir \<noteq> []
          \<and> stat fs (backupName (resolve cwd updateDir) now) = Inl ENOENT
          \<and> resolve cwd backupDir = backupName (resolve cwd updateDir) now"
  then have t: "directoryTree fs (resolve cwd updateDir) t fuel"
    and ne: "resolve cwd updateDir \<noteq> []"
    and fresh: "stat fs (backupName (resolve cwd updateDir) now) = Inl ENOENT"
    and bd: "resolve cwd backupDir = backupName (resolve cwd updateDir) now"
    by auto
  from backup_copies_root[OF t ne fresh] obtain fs1 where
    bk: "backup fuel cwd fs now updateDir = Some (fs1, None)"
    and r1: "stat fs1 (resolve cwd updateDir) = Inr t"
    and b1: "stat fs1 (backupName (resolve cwd updateDir) now) = Inr t"
    by blast
  from t have dt: "isDirectory t" and nt: "distinctNames t" and ft: "depth t \<le> fuel"
    by (simp_all add: directoryTree_def)
  have 1: "directoryTree fs1 (resolve cwd backupDir) t fuel"
    using b1 dt nt ft by (simp add: directoryTree_def bd)
  have 2: "resolve cwd backupDir \<parallel> resolve cwd updateDir"
    using backupName_parallel[OF ne, of now] by (simp add: bd parallel_commute)
  have 3: "directoryOrAbsent fs1 (resolve cwd updateDir) fuel"
    using r1 dt nt ft by (simp add: directoryOrAbsent_def)
  from restore_from_outside[OF 1 2 3] obtain fs2 where
    "restore fuel cwd fs1 updateDir backupDir = Some (fs2, Restored)"
    "stat fs2 (resolve cwd updateDir) = Inr t"
    by blast
  moreover have "decodable t \<longrightarrow>
      compareFilesRecursively (resolve cwd updateDir) t (resolve cwd updateDir) t = ([], None)"
    using dt nt by (simp add: compareFilesRecursively_same del: compareFilesRecursively.simps)
  ultimately show "\<exists>fs1 fs2. backup fuel cwd fs now updateDir = Some (fs1, None)
           \<and> restore fuel cwd fs1 updateDir backupDir = Some (fs2, Restored)
           \<and> stat fs2 (resolve cwd updateDir) = Inr t
           \<and> (decodable t \<longrightarrow>
                compareFilesRecursively (resolve cwd updateDir) t (resolve cwd updateDir) t
                  = ([], None))"
    using bk by blast
qed

theorem restore_replaces_root_witness:
  "restore 2 [''home''] exampleFs ''u1'' ''nowhere'' = Some (exampleFs, BackupDoesNotExist)
   \<and> (\<exists>fs'. restore 2 [''home''] savedFs ''u1'' ''saved'' = Some (fs', Restored)
         \<and> stat fs' [''home'', ''u1''] = Inr (Dir [(''old'', Dir []), (''new'', Dir [(''n.txt'', File [0x79])])])
         \<and> stat fs' [''home'', ''saved''] = Inr (Dir [(''old'', Dir []), (''new'', Dir [(''n.txt'', File [0x79])])]))
   \<and> (\<exists>fs1 fs2. backup 2 [''home''] exampleFs 1700000000000 ''u1'' = Some (fs1, None)
         \<and> restore 2 [''home''] fs1 ''u1'' ''u1_backup_1700000000000'' = Some (fs2, Restored)
         \<and> stat fs2 [''home'', ''u1''] = stat exampleFs [''home'', ''u1''])
   \<and> compareTrees exampleFs [''home'', ''u1''] [''home'', ''u1''] = ([], None)"
proof -
  have r: "resolve [''home''] ''u1'' = [''home'', ''u1'']"
    "resolve [''home''] ''nowhere'' = [''home'', ''nowhere'']"
    "resolve [''home''] ''saved'' = [''home'', ''saved'']"
    "resolve [''home''] ''u1_backup_1700000000000'' = [''home'', ''u1_backup_1700000000000'']"
    by (simp_all add: resolve_def normalizeString_def normalizeStep_def isAbsolute_def)
  have n: "backupName [''home'', ''u1''] 1700000000000 = [''home'', ''u1_backup_1700000000000'']"
    by (simp add: backupName_def digit_def)
  have one: "restore 2 [''home''] exampleFs ''u1'' ''nowhere'' = Some (exampleFs, BackupDoesNotExist)"
    using restore_replaces_root [where fs = exampleFs and cwd = "[''home'']"
        and backupDir = "''nowhere''" and updateDir = "''u1''" and fuel = 2,
        THEN conjunct1]
    by (simp add: r existsSync_def exampleFs_def)
  have two: "\<exists>fs'. restore 2 [''home''] savedFs ''u1'' ''saved'' = Some (fs', Restored)
         \<and> stat fs' [''home'', ''u1''] = Inr (Dir [(''old'', Dir []), (''new'', Dir [(''n.txt'', File [0x79])])])
         \<and> stat fs' [''home'', ''saved''] = Inr (Dir [(''old'', Dir []), (''new'', Dir [(''n.txt'', File [0x79])])])"
    using restore_replaces_root [where fs = savedFs and cwd = "[''home'']"
        and backupDir = "''saved''" and updateDir = "''u1''" and fuel = 2,
        THEN conjunct2, THEN conjunct1, rule_format,
        of "Dir [(''old'', Dir []), (''new'', Dir [(''n.txt'', File [0x79])])]"]
    by (simp add: r directoryTree_def directoryOrAbsent_def savedFs_def parallel_def)
  have three: "\<exists>fs1 fs2. backup 2 [''home''] exampleFs 1700000000000 ''u1'' = Some (fs1, None)
         \<and> restore 2 [''home''] fs1 ''u1'' ''u1_backup_1700000000000'' = Some (fs2, Restored)
         \<and> stat fs2 [''home'', ''u1''] = stat exampleFs [''home'', ''u1'']
         \<and> compareTrees exampleFs [''home'', ''u1''] [''home'', ''u1''] = ([], None)"
    using restore_replaces_root [where fs = exampleFs and cwd = "[''home'']"
        and backupDir = "''u1_backup_1700000000000''" and updateDir = "''u1''" and fuel = 2,
        THEN conjunct2, THEN conjunct2, rule_format,
        of "Dir [(''old'', Dir [(''a.txt'', File [0x78])]),
            (''new'', Dir [(''a.txt'', File [0x79]), (''b.txt'', File [0x7A]), (''c.txt'', File [])])]"
           1700000000000]
    by (simp add: r n directoryTree_def exampleFs_def compareTrees_def kStringMaxLength_def
        del: compareFilesRecursively.simps)
  from one two three show ?thesis by blast
qed

section \<open>Where add writes\<close>

lemma fold_normalizeStep_proper:
  "list_all properName acc \<Longrightarrow> list_all properName (fold (normalizeStep False) segs acc)"
proof (induction segs arbitrary: acc)
  case Nil
  then show ?case by simp
next
  case (Cons s segs)
  have "list_all properName (normalizeStep False s acc)"
    using Cons.prems by (cases acc) (auto simp: normalizeStep_def properName_def[abs_def])
  then show ?case using Cons.IH by simp
qed

lemma fold_normalizeStep_id:
  "list_all properName p \<Longrightarrow> fold (normalizeStep False) p acc = rev p @ acc"
  by (induction p arbitrary: acc) (auto simp: normalizeStep_def properName_def[abs_def])

lemma walk_normalizes:
  "''..'' \<notin> set cur \<Longrightarrow> walk fs cur segs = Inr p \<Longrightarrow>
   p = rev (fold (normalizeStep False) segs (rev cur))"
proof (induction segs arbitrary: cur)
  case Nil
  then show ?case by simp
next
  case (Cons s segs)
  from Cons.prems(2) obtain es where here: "stat fs cur = Inr (Dir es)"
    by (auto split: sum.splits node.splits)
  consider (stay) "s = [] \<or> s = ''.''" | (up) "s = ''..''"
    | (down) "s \<noteq> []" "s \<noteq> ''.''" "s \<noteq> ''..''"
    by blast
  then show ?case
  proof cases
    case stay
    with Cons.prems here have "walk fs cur segs = Inr p" by auto
    from Cons.IH[OF Cons.prems(1) this] stay show ?thesis
      by (auto simp: normalizeStep_def)
  next
    case up
    with Cons.prems here have w: "walk fs (butlast cur) segs = Inr p" by simp
    have "''..'' \<notin> set (butlast cur)" using Cons.prems(1) by (auto dest: in_set_butlastD)
    from Cons.IH[OF this w] have p: "p = rev (fold (normalizeStep False) segs (rev (butlast cur)))" .
    have "normalizeStep False ''..'' (rev cur) = rev (butlast cur)"
      using Cons.prems(1) by (cases cur rule: rev_cases) (auto simp: normalizeStep_def)
    with p up show ?thesis by simp
  next
    case down
    with Cons.prems here have w: "walk fs (cur @ [s]) segs = Inr p" by simp
    have "''..'' \<notin> set (cur @ [s])" using Cons.prems(1) down by auto
    from Cons.IH[OF this w] down show ?thesis by (simp add: normalizeStep_def)
  qed
qed

lemma lookup_resolve:
  assumes "properPath cwd" and "lookup fs cwd s = Inr p"
  shows "p = resolve cwd s"
proof -
  from assms(1) have no: "''..'' \<notin> set cwd"
    by (auto simp: properPath_def properName_def list_all_iff)
  show ?thesis
  proof (cases "isAbsolute s")
    case True
    with assms(2) have "walk fs [] (segments s) = Inr p"
      by (simp add: lookup_def split: if_splits)
    from walk_normalizes[OF _ this] True show ?thesis
      by (simp add: resolve_def normalizeString_def)
  next
    case False
    with assms(2) have "walk fs cwd (segments s) = Inr p"
      by (simp add: lookup_def split: if_splits)
    from walk_normalizes[OF no this] False assms(1) show ?thesis
      by (simp add: resolve_def normalizeString_def properPath_def fold_normalizeStep_id)
  qed
qed

lemma copyFileSyncFrom_resolved:
  "properPath cwd \<Longrightarrow> copyFileSyncFrom fs cwd s dest = Inr fs' \<Longrightarrow>
   copyFileSync fs (resolve cwd s) dest = Inr fs'"
  using lookup_resolve[of cwd fs s]
  by (auto simp: copyFileSyncFrom_def split: sum.splits)

lemma properPath_normalizeString: "properPath (normalizeString False segs)"
  using fold_normalizeStep_proper[of "[]" segs]
  by (simp add: properPath_def normalizeString_def)

lemma properPath_resolve: "properPath (resolve cwd s)"
  by (simp add: resolve_def properPath_normalizeString)

lemma joinSegments_proper:
  "properPath p \<Longrightarrow> properPath r \<Longrightarrow> joinSegments p r = p @ r"
  by (simp add: joinSegments_def normalizeString_def properPath_def fold_normalizeStep_id)

lemma joinSegments_pop:
  "properPath p \<Longrightarrow> properName n \<Longrightarrow>
   joinSegments (p @ [n]) (''..'' # segs) = joinSegments p segs"
  by (simp add: joinSegments_def normalizeString_def properPath_def fold_normalizeStep_id
      normalizeStep_def properName_def)

lemma join_old_new:
  "properPath p \<Longrightarrow> join p ''old'' = p @ [''old''] \<and> join p ''new'' = p @ [''new'']"
  by (simp add: join_def joinSegments_proper properPath_def properName_def)

lemma relative_below: "relative p (p @ r) = r"
  by (induction p) auto

lemma relative_outside: "\<not> prefix from to \<Longrightarrow> \<exists>rest. relative from to = ''..'' # rest"
  by (induction "from" to rule: relative.induct) (auto simp: neq_Nil_conv)

lemma properPath_append: "properPath (p @ r) = (properPath p \<and> properPath r)"
  by (simp add: properPath_def)

lemma add_destinations:
  assumes cwd: "properPath cwd"
  shows add_below:
    "prefix cwd (resolve cwd filePath) \<Longrightarrow>
     destOldPath cwd updateDir filePath
       = resolve cwd updateDir @ ''old'' # drop (length cwd) (resolve cwd filePath)
     \<and> destNewPath cwd updateDir filePath
       = resolve cwd updateDir @ ''new'' # drop (length cwd) (resolve cwd filePath)"
  and add_outside:
    "\<not> prefix cwd (resolve cwd filePath) \<Longrightarrow>
     (\<exists>rest. relPath cwd filePath = ''..'' # rest)
     \<and> destOldPath cwd updateDir filePath = destNewPath cwd updateDir filePath"
proof -
  define root where "root = resolve cwd updateDir"
  have root: "properPath root" by (simp add: root_def properPath_resolve)
  note dirs = join_old_new[OF root]
  {
    assume "prefix cwd (resolve cwd filePath)"
    then obtain r where r: "resolve cwd filePath = cwd @ r" by (auto simp: prefix_def)
    have "properPath (cwd @ r)" using properPath_resolve[of cwd filePath] r by simp
    then have pr: "properPath r" by (simp add: properPath_append)
    have rel: "relPath cwd filePath = r" by (simp add: relPath_def r relative_below)
    have po: "properPath (root @ [''old''])" "properPath (root @ [''new''])"
      using root by (simp_all add: properPath_def properName_def)
    show "destOldPath cwd updateDir filePath
       = resolve cwd updateDir @ ''old'' # drop (length cwd) (resolve cwd filePath)
     \<and> destNewPath cwd updateDir filePath
       = resolve cwd updateDir @ ''new'' # drop (length cwd) (resolve cwd filePath)"
      using dirs po pr
      by (simp add: destOldPath_def destNewPath_def rel root_def[symmetric] joinSegments_proper r)
  }
  {
    assume "\<not> prefix cwd (resolve cwd filePath)"
    from relative_outside[OF this] obtain rest where
      rel: "relPath cwd filePath = ''..'' # rest" by (auto simp: relPath_def)
    have "joinSegments (root @ [''old'']) (''..'' # rest) = joinSegments root rest"
      "joinSegments (root @ [''new'']) (''..'' # rest) = joinSegments root rest"
      using root by (simp_all add: joinSegments_pop properName_def)
    with dirs rel show "(\<exists>rest. relPath cwd filePath = ''..'' # rest)
     \<and> destOldPath cwd updateDir filePath = destNewPath cwd updateDir filePath"
      by (simp add: destOldPath_def destNewPath_def root_def[symmetric])
  }
qed

lemma mkdirp_file_back:
  "mkdirp p t = Inr t' \<Longrightarrow> stat t' q = Inr (File b) \<Longrightarrow> stat t q = Inr (File b)"
proof (induction p arbitrary: t t' q)
  case Nil
  then show ?case by (auto split: node.splits)
next
  case (Cons n p)
  from Cons.prems obtain es where t: "t = Dir es" by (cases t) auto
  define c where "c = (case map_of es n of None \<Rightarrow> Dir [] | Some c \<Rightarrow> c)"
  from Cons.prems t obtain c' where c': "mkdirp p c = Inr c'" and t': "t' = Dir (setEntry n c' es)"
    by (auto simp: c_def split: sum.splits)
  from Cons.prems t' obtain m q' where q: "q = m # q'" by (cases q) auto
  show ?case
  proof (cases "m = n")
    case False
    with Cons.prems q t t' show ?thesis by (simp add: map_of_setEntry)
  next
    case True
    with Cons.prems q t' have "stat c' q' = Inr (File b)" by (simp add: map_of_setEntry)
    from Cons.IH[OF c' this] have cq: "stat c q' = Inr (File b)" .
    show ?thesis
    proof (cases "map_of es n")
      case None
      with cq have "stat (Dir []) q' = Inr (File b)" by (simp add: c_def)
      then show ?thesis by (cases q') auto
    next
      case (Some d)
      with cq True q t show ?thesis by (simp add: c_def)
    qed
  qed
qed

lemma place_through_file:
  "stat t q = Inr (File b) \<Longrightarrow> place (q @ n # r) new t = t"
  by (induction q arbitrary: t) (auto simp: setEntry_same split: node.splits option.splits)

lemma file_has_nothing_below:
  "stat t q = Inr (File b) \<Longrightarrow> stat t (q @ n # r) = Inl ENOTDIR"
  by (simp add: stat_append)

lemma copyFileSync_result:
  assumes "copyFileSync t src p = Inr t'"
  shows "\<exists>bs. stat t src = Inr (File bs) \<and> t' = place p (File bs) t
            \<and> stat t' p = Inr (File bs) \<and> \<not> (\<exists>es. stat t p = Inr (Dir es))"
proof -
  from assms obtain bs where src: "stat t src = Inr (File bs)"
    by (auto simp: copyFileSync_def split: sum.splits node.splits)
  show ?thesis
  proof (cases "stat t p")
    case (Inr x)
    with assms src obtain old where "x = File old" and t': "t' = place p (File bs) t"
      by (auto simp: copyFileSync_def split: node.splits)
    with Inr src stat_place_at[OF Inr, of "File bs" "[]"] show ?thesis by simp
  next
    case (Inl e)
    with assms src obtain es where par: "stat t (butlast p) = Inr (Dir es)"
      and t': "t' = place p (File bs) t"
      by (auto simp: copyFileSync_def split: sum.splits node.splits)
    from Inl have "p \<noteq> []" by auto
    then have p: "p = butlast p @ [last p]" by simp
    from stat_place_below[OF par, of "last p" "File bs" "[]"] p
    have "stat (place p (File bs) t) p = Inr (File bs)" by simp
    with src t' Inl show ?thesis by simp
  qed
qed

lemma copyFileSync_other_files:
  assumes cp: "copyFileSync t src p = Inr t'" and q: "stat t q = Inr (File b)" and ne: "q \<noteq> p"
  shows "stat t' q = Inr (File b)"
proof -
  from copyFileSync_result[OF cp] obtain bs where t': "t' = place p (File bs) t"
    and nd: "\<not> (\<exists>es. stat t p = Inr (Dir es))" by blast
  consider (par) "p \<parallel> q" | (below) r where "q = p @ r" | (above) "strict_prefix q p"
    using path_trichotomy[of p q] by (auto simp: prefix_def)
  then show ?thesis
  proof cases
    case par
    with q t' show ?thesis by (simp add: stat_place_parallel)
  next
    case below
    with ne obtain n r' where r: "r = n # r'" by (cases r) auto
    with below q obtain c where c: "stat t p = Inr c" and "stat c (n # r') = Inr (File b)"
      by (auto simp: stat_append split: sum.splits)
    then obtain es where "c = Dir es" by (cases c) auto
    with c nd show ?thesis by simp
  next
    case above
    then obtain n r where "p = q @ n # r"
      by (auto simp: strict_prefix_def prefix_def) (metis list.exhaust append_Nil2)
    with q t' show ?thesis by (simp add: place_through_file)
  qed
qed

lemma add_source_is_looked_up:
  "resolve [''home''] ''src/m.js/'' = [''home'', ''src'', ''m.js'']
   \<and> snd (add [''home''] addFs ''u1'' ''src/m.js/'') = Some ENOTDIR
   \<and> resolve [''home''] ''nope/../src/m.js'' = [''home'', ''src'', ''m.js'']
   \<and> snd (add [''home''] addFs ''u1'' ''nope/../src/m.js'') = Some ENOENT"
  by (simp add: add_def destOldPath_def destNewPath_def relPath_def resolve_def join_def
      joinSegments_def normalizeString_def normalizeStep_def isAbsolute_def dirname_def
      mkdirSync_def copyFileSyncFrom_def lookup_def copyFileSync_def addFs_def)

lemma add_copies:
  assumes "properPath cwd" and "add cwd fs updateDir filePath = (fs', None)"
  shows "\<exists>bs. stat fs (resolve cwd filePath) = Inr (File bs)
           \<and> stat fs' (destOldPath cwd updateDir filePath) = Inr (File bs)
           \<and> stat fs' (destNewPath cwd updateDir filePath) = Inr (File bs)"
proof -
  define src where "src = resolve cwd filePath"
  define od where "od = destOldPath cwd updateDir filePath"
  define nd where "nd = destNewPath cwd updateDir filePath"
  from assms(2) obtain fs1 fs2 fs3 where
    m1: "mkdirp (dirname od) fs = Inr fs1" and m2: "mkdirp (dirname nd) fs1 = Inr fs2"
    and f1: "copyFileSyncFrom fs2 cwd filePath od = Inr fs3"
    and f2: "copyFileSyncFrom fs3 cwd filePath nd = Inr fs'"
    by (auto simp: add_def mkdirSync_def od_def nd_def split: sum.splits)
  have c1: "copyFileSync fs2 src od = Inr fs3" and c2: "copyFileSync fs3 src nd = Inr fs'"
    using copyFileSyncFrom_resolved[OF assms(1) f1] copyFileSyncFrom_resolved[OF assms(1) f2]
    by (simp_all add: src_def)
  from copyFileSync_result[OF c1] obtain bs where
    s2: "stat fs2 src = Inr (File bs)" and o3: "stat fs3 od = Inr (File bs)" by blast
  from copyFileSync_result[OF c2] obtain bs' where
    s3: "stat fs3 src = Inr (File bs')" and n4: "stat fs' nd = Inr (File bs')" by blast
  have "stat fs3 src = Inr (File bs)"
    using o3 copyFileSync_other_files[OF c1 s2] by (cases "src = od") auto
  with s3 have eq: "bs' = bs" by simp
  have o4: "stat fs' od = Inr (File bs)"
    using n4 eq copyFileSync_other_files[OF c2 o3] by (cases "od = nd") auto
  have "stat fs src = Inr (File bs)"
    using mkdirp_file_back[OF m1] mkdirp_file_back[OF m2 s2] by simp
  with o4 n4 eq show ?thesis unfolding src_def od_def nd_def by blast
qed

text \<open>
  Claim C10 as stated: for a file outside the working directory, \<open>add\<close> writes
  the copies outside the \<open>old\<close> and \<open>new\<close> subtrees. With the working
  directory \<open>/a/b\<close> and the file \<open>../new/x.txt\<close>, the relative path is
  \<open>../new/x.txt\<close>, its \<open>..\<close> cancels the \<open>old\<close> or \<open>new\<close>
  it is joined to, and the copy is written to \<open>/a/b/u1/new/x.txt\<close>: inside the
  \<open>new\<close> subtree.
\<close>

theorem add_outside_lands_in_new:
  "\<not> prefix [''a'', ''b''] (resolve [''a'', ''b''] ''../new/x.txt'')
   \<and> destNewPath [''a'', ''b''] ''u1'' ''../new/x.txt''
       = join (resolve [''a'', ''b''] ''u1'') ''new'' @ [''x.txt'']
   \<and> add [''a'', ''b'']
         (Dir [(''a'', Dir [(''b'', Dir [(''u1'', Dir [(''old'', Dir []), (''new'', Dir [])])]),
                            (''new'', Dir [(''x.txt'', File [0x78])])])])
         ''u1'' ''../new/x.txt''
       = (Dir [(''a'', Dir [(''b'', Dir [(''u1'', Dir [(''old'', Dir []),
                                                      (''new'', Dir [(''x.txt'', File [0x78])])])]),
                            (''new'', Dir [(''x.txt'', File [0x78])])])],
          None)"
  by (simp add: add_def destOldPath_def destNewPath_def relPath_def resolve_def join_def
      joinSegments_def normalizeString_def normalizeStep_def isAbsolute_def dirname_def
      mkdirSync_def copyFileSyncFrom_def lookup_def copyFileSync_def)

text \<open>
  Claim C10, amended: the destinations of \<open>add\<close> are
  \<open>join(root/old, relative(cwd, filePath))\<close> and the same under \<open>root/new\<close>,
  and a successful \<open>add\<close> leaves the content of the file at both. When the
  file resolves under the working directory, the two destinations are its relative path
  inside \<open>root/old\<close> and inside \<open>root/new\<close>. When it resolves outside,
  the relative path begins with \<open>..\<close>, and both destinations are one and the
  same path: the copies are never one inside \<open>root/old\<close> and one inside
  \<open>root/new\<close>, and the mirrored layout is broken.
\<close>

theorem add_destinations_and_copies:
  assumes "properPath cwd"
  shows "(prefix cwd (resolve cwd filePath) \<longrightarrow>
            destOldPath cwd updateDir filePath
              = join (resolve cwd updateDir) ''old'' @ drop (length cwd) (resolve cwd filePath)
          \<and> destNewPath cwd updateDir filePath
              = join (resolve cwd updateDir) ''new'' @ drop (length cwd) (resolve cwd filePath))
       \<and> (\<not> prefix cwd (resolve cwd filePath) \<longrightarrow>
            (\<exists>rest. relPath cwd filePath = ''..'' # rest)
          \<and> destOldPath cwd updateDir filePath = destNewPath cwd updateDir filePath
          \<and> \<not> (prefix (join (resolve cwd updateDir) ''old'') (destOldPath cwd updateDir filePath)
               \<and> prefix (join (resolve cwd updateDir) ''new'') (destNewPath cwd updateDir filePath)))
       \<and> (\<forall>fs'. add cwd fs updateDir filePath = (fs', None) \<longrightarrow>
            (\<exists>bs. stat fs (resolve cwd filePath) = Inr (File bs)
               \<and> stat fs' (destOldPath cwd updateDir filePath) = Inr (File bs)
               \<and> stat fs' (destNewPath cwd updateDir filePath) = Inr (File bs)))"
proof (intro conjI allI impI)
  have dirs: "join (resolve cwd updateDir) ''old'' = resolve cwd updateDir @ [''old'']"
    "join (resolve cwd updateDir) ''new'' = resolve cwd updateDir @ [''new'']"
    using join_old_new[OF properPath_resolve[of cwd updateDir]] by simp_all
  {
    assume "prefix cwd (resolve cwd filePath)"
    from add_below[OF assms this, of updateDir]
    show "destOldPath cwd updateDir filePath
              = join (resolve cwd updateDir) ''old'' @ drop (length cwd) (resolve cwd filePath)"
      and "destNewPath cwd updateDir filePath
              = join (resolve cwd updateDir) ''new'' @ drop (length cwd) (resolve cwd filePath)"
      by (simp_all add: dirs)
  }
  {
    assume out: "\<not> prefix cwd (resolve cwd filePath)"
    from add_outside[OF assms out, of updateDir]
    show "\<exists>rest. relPath cwd filePath = ''..'' # rest"
      and same: "destOldPath cwd updateDir filePath = destNewPath cwd updateDir filePath"
      by simp_all
    show "\<not> (prefix (join (resolve cwd updateDir) ''old'') (destOldPath cwd updateDir filePath)
               \<and> prefix (join (resolve cwd updateDir) ''new'') (destNewPath cwd updateDir filePath))"
      unfolding same dirs by (auto simp: prefix_def)
  }
  {
    fix fs'
    assume "add cwd fs updateDir filePath = (fs', None)"
    then show "\<exists>bs. stat fs (resolve cwd filePath) = Inr (File bs)
               \<and> stat fs' (destOldPath cwd updateDir filePath) = Inr (File bs)
               \<and> stat fs' (destNewPath cwd updateDir filePath) = Inr (File bs)"
      by (rule add_copies[OF assms])
  }
qed

theorem add_destinations_and_copies_witness:
  "destOldPath [''home''] ''u1'' ''src/m.js'' = [''home'', ''u1'', ''old'', ''src'', ''m.js'']
   \<and> destNewPath [''home''] ''u1'' ''src/m.js'' = [''home'', ''u1'', ''new'', ''src'', ''m.js'']
   \<and> relPath [''home''] ''/etc/conf'' = [''..'', ''etc'', ''conf'']
   \<and> destOldPath [''home''] ''u1'' ''/etc/conf'' = destNewPath [''home''] ''u1'' ''/etc/conf''
   \<and> (\<exists>fs'. add [''home''] addFs ''u1'' ''src/m.js'' = (fs', None)
          \<and> stat fs' [''home'', ''u1'', ''old'', ''src'', ''m.js''] = Inr (File [0x78])
          \<and> stat fs' [''home'', ''u1'', ''new'', ''src'', ''m.js''] = Inr (File [0x78]))"
proof -
  have cwd: "properPath [''home'']" by (simp add: properPath_def properName_def)
  have r: "resolve [''home''] ''src/m.js'' = [''home'', ''src'', ''m.js'']"
    "resolve [''home''] ''/etc/conf'' = [''etc'', ''conf'']"
    "resolve [''home''] ''u1'' = [''home'', ''u1'']"
    "join [''home'', ''u1''] ''old'' = [''home'', ''u1'', ''old'']"
    "join [''home'', ''u1''] ''new'' = [''home'', ''u1'', ''new'']"
    by (simp_all add: resolve_def join_def joinSegments_def normalizeString_def
        normalizeStep_def isAbsolute_def)
  have rel: "relPath [''home''] ''/etc/conf'' = [''..'', ''etc'', ''conf'']"
    by (simp add: relPath_def r)
  have ok: "\<exists>fs'. add [''home''] addFs ''u1'' ''src/m.js'' = (fs', None)"
    by (simp add: add_def destOldPath_def destNewPath_def relPath_def r joinSegments_def
        normalizeString_def normalizeStep_def dirname_def mkdirSync_def copyFileSyncFrom_def
        lookup_def isAbsolute_def copyFileSync_def addFs_def)
  have src: "stat addFs [''home'', ''src'', ''m.js''] = Inr (File [0x78])"
    by (simp add: addFs_def)
  note below = add_destinations_and_copies [OF cwd, of "''src/m.js''" "''u1''" addFs]
  note outside = add_destinations_and_copies [OF cwd, of "''/etc/conf''" "''u1''" addFs]
  from below have d: "destOldPath [''home''] ''u1'' ''src/m.js'' = [''home'', ''u1'', ''old'', ''src'', ''m.js'']"
    "destNewPath [''home''] ''u1'' ''src/m.js'' = [''home'', ''u1'', ''new'', ''src'', ''m.js'']"
    by (simp_all add: r)
  from outside have e: "destOldPath [''home''] ''u1'' ''/etc/conf'' = destNewPath [''home''] ''u1'' ''/etc/conf''"
    by (simp add: r)
  from below ok src have "\<exists>fs'. add [''home''] addFs ''u1'' ''src/m.js'' = (fs', None)
          \<and> stat fs' [''home'', ''u1'', ''old'', ''src'', ''m.js''] = Inr (File [0x78])
          \<and> stat fs' [''home'', ''u1'', ''new'', ''src'', ''m.js''] = Inr (File [0x78])"
    unfolding d r by auto
  with d e rel show ?thesis by simp
qed

end
